theory Spec2Isabelle
  imports Main "HOL-Library.AList" "HOL-Library.Char_ord" "HOL-Library.List_Lexorder"
begin

section \<open>Text primitives of the Python runtime\<close>

text \<open>
  A Python \<open>str\<close> is modelled as a HOL \<open>string\<close>, one \<open>char\<close> per code point, so
  the model covers text whose code points are at most U+00FF. On that range \<open>isspace\<close>
  is the blank test of \<open>str.split\<close> and \<open>str.strip\<close>, and \<open>upper\<close> is \<open>str.upper\<close>
  except at U+00B5 and U+00FF, whose capitals U+039C and U+0178 lie above the range:
  the model leaves these two as they are, and \<open>upper_exact\<close> marks the text without them.
\<close>

definition isspace :: "char \<Rightarrow> bool" where
  \<comment> \<open>TAB, LF, VT, FF, CR, FS, GS, RS, US, the blank, NEL (U+0085) and the no-break
      space (U+00A0).\<close>
  "isspace c =
     (let n = (of_char c :: nat)
      in (9 \<le> n \<and> n \<le> 13) \<or> (28 \<le> n \<and> n \<le> 32) \<or> n = 133 \<or> n = 160)"

definition upper_char :: "char \<Rightarrow> string" where
  \<comment> \<open>the letters a to z and U+00E0 to U+00FE, without the division sign U+00F7, move
      down by 32; the sharp s U+00DF becomes SS.\<close>
  "upper_char c =
     (let n = (of_char c :: nat)
      in if (97 \<le> n \<and> n \<le> 122) \<or> (224 \<le> n \<and> n \<le> 254 \<and> n \<noteq> 247) then [char_of (n - 32)]
         else if n = 223 then ''SS''
         else [c])"

definition upper :: "string \<Rightarrow> string" where
  \<comment> \<open>\<open>str.upper()\<close>\<close>
  "upper s = concat (map upper_char s)"


definition strip :: "string \<Rightarrow> string" where
  \<comment> \<open>\<open>str.strip()\<close>: blanks removed at both ends.\<close>
  "strip s = rev (dropWhile isspace (rev (dropWhile isspace s)))"

definition startswith :: "string \<Rightarrow> string \<Rightarrow> bool" where
  \<comment> \<open>\<open>s.startswith(p)\<close>\<close>
  "startswith s p = (take (length p) s = p)"

text \<open>
  \<open>s.split(maxsplit=k)\<close> with no separator: runs of blanks separate the fields, blanks
  at the front are skipped, and once \<open>k\<close> fields have been cut the rest of the string,
  without its leading blanks, is the last field (it keeps its inner and trailing blanks);
  an all-blank rest gives no field.
\<close>

fun split_maxsplit :: "nat \<Rightarrow> string \<Rightarrow> string list" where
  "split_maxsplit 0 s =
     (let r = dropWhile isspace s in if r = [] then [] else [r])"
| "split_maxsplit (Suc k) s =
     (let r = dropWhile isspace s in
      if r = [] then []
      else takeWhile (\<lambda>c. \<not> isspace c) r # split_maxsplit k (dropWhile (\<lambda>c. \<not> isspace c) r))"

fun join :: "string \<Rightarrow> string list \<Rightarrow> string" where
  \<comment> \<open>\<open>sep.join(xs)\<close>\<close>
  "join sep [] = []"
| "join sep [x] = x"
| "join sep (x # y # ys) = x @ sep @ join sep (y # ys)"

fun str_nat :: "nat \<Rightarrow> string" where
  \<comment> \<open>\<open>str(n)\<close> of a non-negative integer, as an f-string prints it.\<close>
  "str_nat n = (if n < 10 then [char_of (48 + n)] else str_nat (n div 10) @ [char_of (48 + n mod 10)])"

declare str_nat.simps [simp del]

section \<open>IRCProtocol\<close>

definition CMD_PREFIX :: string where "CMD_PREFIX = ''/''"
definition CMD_NICK :: string where "CMD_NICK = ''NICK''"
definition CMD_JOIN :: string where "CMD_JOIN = ''JOIN''"
definition CMD_LEAVE :: string where "CMD_LEAVE = ''LEAVE''"
definition CMD_LIST :: string where "CMD_LIST = ''LIST''"
definition CMD_MSG :: string where "CMD_MSG = ''MSG''"
definition CMD_WHOIS :: string where "CMD_WHOIS = ''WHOIS''"
definition CMD_KICK :: string where "CMD_KICK = ''KICK''"
definition CMD_BAN :: string where "CMD_BAN = ''BAN''"
definition CMD_QUIT :: string where "CMD_QUIT = ''QUIT''"
definition CMD_HELP :: string where "CMD_HELP = ''HELP''"

definition RESP_OK :: string where "RESP_OK = ''200''"
definition RESP_ERROR :: string where "RESP_ERROR = ''400''"
definition RESP_AUTH_REQUIRED :: string where "RESP_AUTH_REQUIRED = ''401''"
definition RESP_FORBIDDEN :: string where "RESP_FORBIDDEN = ''403''"
definition RESP_NOT_FOUND :: string where "RESP_NOT_FOUND = ''404''"

text \<open>
  A frame is the dictionary that \<open>format_message\<close> or \<open>format_response\<close> hands to
  \<open>json.dumps\<close>; the JSON text itself is not modelled. The timestamp is the clock
  reading \<open>int(time.time())\<close> at the moment of formatting.
\<close>

datatype frame =
    Message string string string string nat
      \<comment> \<open>sender, type, recipient, content, timestamp\<close>
  | Response string string nat
      \<comment> \<open>code, message, timestamp\<close>

definition format_message :: "nat \<Rightarrow> string \<Rightarrow> string \<Rightarrow> string \<Rightarrow> string \<Rightarrow> frame" where
  "format_message now sender message_type recipient content =
     Message sender message_type recipient content now"

definition format_response :: "nat \<Rightarrow> string \<Rightarrow> string \<Rightarrow> frame" where
  "format_response now code message = Response code message now"

text \<open>
  \<open>parse_command\<close> returns the triple \<open>(None, None, None)\<close> for a line without the
  prefix; that triple is \<open>None\<close> here, every other result is \<open>Some (command, target, content)\<close>.
\<close>

definition parse_command :: "string \<Rightarrow> (string \<times> string \<times> string) option" where
  "parse_command message =
     (if \<not> startswith message CMD_PREFIX then None
      else
        let parts = split_maxsplit 2 (drop 1 message);
            command = (if parts \<noteq> [] then upper (parts ! 0) else []);
            target = (if length parts > 1 then parts ! 1 else []);
            content = (if length parts > 2 then parts ! 2 else [])
        in Some (command, target, content))"







definition nick_char :: "char \<Rightarrow> bool" where
  \<comment> \<open>the character class \<open>[a-zA-Z0-9_]\<close>\<close>
  "nick_char c =
     (let n = (of_char c :: nat)
      in (97 \<le> n \<and> n \<le> 122) \<or> (65 \<le> n \<and> n \<le> 90) \<or> (48 \<le> n \<and> n \<le> 57) \<or> n = 95)"

definition nick_pattern :: "string \<Rightarrow> bool" where
  \<comment> \<open>the whole text is \<open>[a-zA-Z0-9_]{3,16}\<close>\<close>
  "nick_pattern name = (3 \<le> length name \<and> length name \<le> 16 \<and> list_all nick_char name)"

definition re_match_nick :: "string \<Rightarrow> bool" where
  \<comment> \<open>\<open>re.match(r'^[a-zA-Z0-9_]{3,16}$', name)\<close>: in Python \<open>$\<close> also matches just
      before a line feed that ends the text.\<close>
  "re_match_nick name =
     (nick_pattern name \<or> (name \<noteq> [] \<and> last name = CHR 0x0A \<and> nick_pattern (butlast name)))"

section \<open>IRCServer: state\<close>

text \<open>
  A socket object is identified by a number. The dictionaries are association lists in
  insertion order, as a Python \<open>dict\<close> iterates; \<open>map_of\<close> is the lookup,
  \<open>AList.update\<close> the item assignment and \<open>AList.delete\<close> the \<open>del\<close>.
  Besides the attributes of \<open>IRCServer\<close> the state holds what the code reads from its
  environment: the clock \<open>int(time.time())\<close>, the sockets on which \<open>send\<close> raises
  (the peer is gone, or the socket was closed), and the log of the frames that \<open>send\<close>
  has accepted, in order.
\<close>

type_synonym sock = nat

record channel =
  users :: "string set"
  topic :: string
  created_at :: nat

record user_record =
  connected_at :: nat
  ip :: string

record server =
  clients :: "sock list"
  usernames :: "(sock \<times> string) list"
  user_info :: "(string \<times> user_record) list"
  channels :: "(string \<times> channel) list"
  admins :: "string list"
  clock :: nat
  dead :: "sock set"
  outbox :: "(sock \<times> frame) list"

definition server_name :: string where "server_name = ''BetaIRC''"
definition server_version :: string where "server_version = ''1.0.0''"

definition init_server :: "nat \<Rightarrow> server" where
  \<comment> \<open>\<open>IRCServer.__init__\<close> at clock reading \<open>now\<close>\<close>
  "init_server now =
     \<lparr>clients = [], usernames = [], user_info = [],
      channels =
        [(''#general'', \<lparr>users = {}, topic = ''General discussion'', created_at = now\<rparr>),
         (''#help'', \<lparr>users = {}, topic = ''Get help with the server'', created_at = now\<rparr>)],
      admins = [''admin''], clock = now, dead = {}, outbox = []\<rparr>"

definition sock_send :: "server \<Rightarrow> sock \<Rightarrow> frame \<Rightarrow> server option" where
  \<comment> \<open>\<open>client.send(message.encode('utf-8'))\<close>; \<open>None\<close> when it raises\<close>
  "sock_send s c f = (if c \<in> dead s then None else Some (s\<lparr>outbox := outbox s @ [(c, f)]\<rparr>))"

definition sock_close :: "server \<Rightarrow> sock \<Rightarrow> server" where
  \<comment> \<open>\<open>client_socket.close()\<close> inside \<open>try\<close>/\<open>except: pass\<close>\<close>
  "sock_close s c = s\<lparr>dead := insert c (dead s)\<rparr>"

definition channel_names :: "server \<Rightarrow> string list" where
  "channel_names s = map fst (channels s)"

definition taken_names :: "server \<Rightarrow> string list" where
  \<comment> \<open>\<open>self.usernames.values()\<close>\<close>
  "taken_names s = map snd (usernames s)"

section \<open>IRCServer: disconnecting and broadcasting\<close>

definition remove_from_channels :: "string \<Rightarrow> (string \<times> channel) list \<Rightarrow> (string \<times> channel) list" where
  \<comment> \<open>the loop \<open>for channel in self.channels: if username in users: users.remove(username)\<close>\<close>
  "remove_from_channels username chans =
     map (\<lambda>(n, ch). (n, if username \<in> users ch then ch\<lparr>users := users ch - {username}\<rparr> else ch)) chans"

definition forget_user :: "server \<Rightarrow> sock \<Rightarrow> string \<Rightarrow> server" where
  \<comment> \<open>lines 144 to 152 of \<open>disconnect_client\<close>: the user leaves every channel, the
      username index and the metadata store\<close>
  "forget_user s client_socket username =
     s\<lparr>channels := remove_from_channels username (channels s),
       usernames := AList.delete client_socket (usernames s),
       user_info := AList.delete username (user_info s)\<rparr>"

definition leave_message :: "server \<Rightarrow> string \<Rightarrow> frame" where
  "leave_message s username =
     format_message (clock s) ''SERVER'' ''system'' ''all'' (username @ '' has left the server.'')"

definition drop_client :: "server \<Rightarrow> sock \<Rightarrow> server" where
  \<comment> \<open>lines 159 to 167 of \<open>disconnect_client\<close>: out of the client list, socket closed\<close>
  "drop_client s client_socket =
     sock_close (if client_socket \<in> set (clients s)
                 then s\<lparr>clients := remove1 client_socket (clients s)\<rparr> else s) client_socket"

text \<open>
  \<open>broadcast\<close> walks \<open>self.clients\<close> by position, as the list iterator of Python does,
  while the \<open>except\<close> branch calls \<open>disconnect_client\<close>, which shortens that same list
  and broadcasts in turn. \<open>broadcast_from i\<close> is the loop from position \<open>i\<close> on.
\<close>

function disconnect_client :: "server \<Rightarrow> sock \<Rightarrow> server"
  and broadcast_from :: "nat \<Rightarrow> server \<Rightarrow> frame \<Rightarrow> server"
where
  "disconnect_client s client_socket =
     (case map_of (usernames s) client_socket of
        None \<Rightarrow> drop_client s client_socket
      | Some username \<Rightarrow>
          if username = [] then drop_client s client_socket
          else drop_client
                 (broadcast_from 0 (forget_user s client_socket username) (leave_message s username))
                 client_socket)"
| "broadcast_from i s message =
     (if i < length (clients s) then
        (case sock_send s (clients s ! i) message of
           Some s' \<Rightarrow> broadcast_from (Suc i) s' message
         | None \<Rightarrow> broadcast_from (Suc i) (disconnect_client s (clients s ! i)) message)
      else s)"
  by pat_completeness auto

definition broadcast :: "server \<Rightarrow> frame \<Rightarrow> server" where
  "broadcast s message = broadcast_from 0 s message"

text \<open>
  \<open>broadcast_to_channel\<close>: the loop reads \<open>self.usernames\<close> and the member set of the
  channel anew for each client. The lookup \<open>self.channels[channel]\<close> inside the loop
  cannot fail once the guard before the loop has passed, since nothing in the loop
  removes a channel; the model ends the loop there.
\<close>

function broadcast_to_channel_from ::
  "nat \<Rightarrow> server \<Rightarrow> string \<Rightarrow> frame \<Rightarrow> sock option \<Rightarrow> server"
where
  "broadcast_to_channel_from i s chan message exclude =
     (if i < length (clients s) then
        (case map_of (channels s) chan of
           None \<Rightarrow> s
         | Some ch \<Rightarrow>
            (case map_of (usernames s) (clients s ! i) of
               None \<Rightarrow> broadcast_to_channel_from (Suc i) s chan message exclude
             | Some username \<Rightarrow>
                 if username \<noteq> [] \<and> username \<in> users ch \<and> Some (clients s ! i) \<noteq> exclude then
                   (case sock_send s (clients s ! i) message of
                      Some s' \<Rightarrow> broadcast_to_channel_from (Suc i) s' chan message exclude
                    | None \<Rightarrow>
                        broadcast_to_channel_from (Suc i) (disconnect_client s (clients s ! i))
                          chan message exclude)
                 else broadcast_to_channel_from (Suc i) s chan message exclude))
      else s)"
  by pat_completeness auto

definition broadcast_to_channel :: "server \<Rightarrow> string \<Rightarrow> frame \<Rightarrow> sock option \<Rightarrow> server" where
  "broadcast_to_channel s chan message exclude =
     (if chan \<notin> set (channel_names s) then s
      else broadcast_to_channel_from 0 s chan message exclude)"

definition send_to_user :: "server \<Rightarrow> string \<Rightarrow> frame \<Rightarrow> bool \<times> server" where
  \<comment> \<open>the first entry of \<open>self.usernames.items()\<close> with that name decides\<close>
  "send_to_user s username message =
     (case find (\<lambda>(client, name). name = username) (usernames s) of
        None \<Rightarrow> (False, s)
      | Some (client, name) \<Rightarrow>
          (case sock_send s client message of
             Some s' \<Rightarrow> (True, s')
           | None \<Rightarrow> (False, disconnect_client s client)))"


section \<open>IRCServer: commands\<close>

text \<open>
  A handler either returns or raises; in both cases the changes made to the server so
  far stand. The only statements of \<open>handle_command\<close> that can raise are the \<open>send\<close>
  calls on the requester's own socket, which are not inside a \<open>try\<close>.
\<close>

datatype completion = Returned | Raised

definition reply :: "server \<Rightarrow> sock \<Rightarrow> frame \<Rightarrow> completion \<times> server" where
  \<comment> \<open>\<open>client_socket.send(...)\<close> as the last statement of a branch\<close>
  "reply s client_socket f =
     (case sock_send s client_socket f of Some s' \<Rightarrow> (Returned, s') | None \<Rightarrow> (Raised, s))"

definition rename_in_channels :: "string \<Rightarrow> string \<Rightarrow> (string \<times> channel) list \<Rightarrow> (string \<times> channel) list" where
  \<comment> \<open>the loop of lines 195 to 198\<close>
  "rename_in_channels old_nick new_nick chans =
     map (\<lambda>(n, ch). (n, if old_nick \<in> users ch
                           then ch\<lparr>users := insert new_nick (users ch - {old_nick})\<rparr> else ch)) chans"

definition normalize_channel :: "string \<Rightarrow> string" where
  "normalize_channel target =
     (let chan = strip target in if \<not> startswith chan ''#'' then ''#'' @ chan else chan)"

definition new_channel :: "server \<Rightarrow> string \<Rightarrow> channel" where
  "new_channel s chan = \<lparr>users = {}, topic = ''Welcome to '' @ chan, created_at = clock s\<rparr>"

definition cmd_nick :: "server \<Rightarrow> sock \<Rightarrow> string \<Rightarrow> string \<Rightarrow> completion \<times> server" where
  "cmd_nick s client_socket username target =
     (let new_nick = strip target in
      if new_nick = [] \<or> \<not> re_match_nick new_nick then
        reply s client_socket (format_response (clock s) RESP_ERROR
          ''Invalid nickname. Use 3-16 alphanumeric characters or underscores.'')
      else if new_nick \<in> set (taken_names s) then
        reply s client_socket (format_response (clock s) RESP_ERROR ''Nickname already in use.'')
      else
        let old_nick = username;
            s1 = s\<lparr>usernames := AList.update client_socket new_nick (usernames s)\<rparr>;
            s2 = s1\<lparr>channels := rename_in_channels old_nick new_nick (channels s1)\<rparr>
        in (Returned,
            broadcast s2 (format_message (clock s) ''SERVER'' ''system'' ''all''
              (old_nick @ '' is now known as '' @ new_nick))))"

text \<open>
  Every connection has a handler thread of its own (\<open>threading.Thread\<close> in \<open>start\<close>),
  all of them working on the one \<open>IRCServer\<close> object, and no statement of the server
  takes a lock. A thread can therefore be suspended between any two statements. For
  the \<open>NICK\<close> branch the place that matters is between its checks and its assignment:
  \<open>nick_check\<close> is lines 178 to 188 up to the decision (the response that refuses the
  name, if it is refused in the state the thread reads), \<open>nick_commit\<close> is lines 190 to
  202 on the state the thread finds when it goes on.
\<close>

definition nick_check :: "server \<Rightarrow> string \<Rightarrow> frame option" where
  "nick_check s target =
     (let new_nick = strip target in
      if new_nick = [] \<or> \<not> re_match_nick new_nick then
        Some (format_response (clock s) RESP_ERROR
          ''Invalid nickname. Use 3-16 alphanumeric characters or underscores.'')
      else if new_nick \<in> set (taken_names s) then
        Some (format_response (clock s) RESP_ERROR ''Nickname already in use.'')
      else None)"

definition nick_commit :: "server \<Rightarrow> sock \<Rightarrow> string \<Rightarrow> string \<Rightarrow> completion \<times> server" where
  "nick_commit s client_socket username target =
     (let new_nick = strip target;
          old_nick = username;
          s1 = s\<lparr>usernames := AList.update client_socket new_nick (usernames s)\<rparr>;
          s2 = s1\<lparr>channels := rename_in_channels old_nick new_nick (channels s1)\<rparr>
      in (Returned,
          broadcast s2 (format_message (clock s) ''SERVER'' ''system'' ''all''
            (old_nick @ '' is now known as '' @ new_nick))))"

definition nick_after_check ::
  "server \<Rightarrow> sock \<Rightarrow> string \<Rightarrow> string \<Rightarrow> frame option \<Rightarrow> completion \<times> server" where
  \<comment> \<open>what a thread does with the decision of its checks, on the state it finds then\<close>
  "nick_after_check s client_socket username target decision =
     (case decision of
        Some refusal \<Rightarrow> reply s client_socket refusal
      | None \<Rightarrow> nick_commit s client_socket username target)"

definition nick_race ::
  "server \<Rightarrow> sock \<Rightarrow> string \<Rightarrow> string \<Rightarrow> sock \<Rightarrow> string \<Rightarrow> string
     \<Rightarrow> completion \<times> completion \<times> server" where
  \<comment> \<open>the threads of connections \<open>a\<close> and \<open>b\<close>, registered as \<open>ua\<close> and \<open>ub\<close>, both in
      the \<open>NICK\<close> branch: \<open>a\<close> runs its checks, \<open>b\<close> runs its checks before \<open>a\<close> goes
      on, then \<open>a\<close> goes on, then \<open>b\<close>\<close>
  "nick_race s a ua ta b ub tb =
     (let decision_a = nick_check s ta;
          decision_b = nick_check s tb;
          (ra, s1) = nick_after_check s a ua ta decision_a;
          (rb, s2) = nick_after_check s1 b ub tb decision_b
      in (ra, rb, s2))"

definition cmd_join :: "server \<Rightarrow> sock \<Rightarrow> string \<Rightarrow> string \<Rightarrow> completion \<times> server" where
  \<comment> \<open>the member list of the last frame is joined in the iteration order of a Python
      set, which the language leaves open; the model lists it sorted\<close>
  "cmd_join s client_socket username target =
     (let chan = normalize_channel target;
          s1 = (if chan \<notin> set (channel_names s)
                then s\<lparr>channels := AList.update chan (new_channel s chan) (channels s)\<rparr> else s);
          s2 = s1\<lparr>channels :=
                  AList.map_entry chan (\<lambda>ch. ch\<lparr>users := insert username (users ch)\<rparr>) (channels s1)\<rparr>;
          s3 = broadcast_to_channel s2 chan
                 (format_message (clock s) ''SERVER'' ''system'' chan
                    (username @ '' has joined '' @ chan)) None
      in case map_of (channels s3) chan of
           None \<Rightarrow> (Raised, s3)
         | Some ch \<Rightarrow>
            (case sock_send s3 client_socket
                    (format_message (clock s) ''SERVER'' ''system'' username
                       (''Topic for '' @ chan @ '': '' @ topic ch)) of
               None \<Rightarrow> (Raised, s3)
             | Some s4 \<Rightarrow>
                 reply s4 client_socket
                   (format_message (clock s) ''SERVER'' ''system'' username
                      (''Users in '' @ chan @ '': '' @ join '', '' (sorted_list_of_set (users ch))))))"

definition cmd_leave :: "server \<Rightarrow> sock \<Rightarrow> string \<Rightarrow> string \<Rightarrow> completion \<times> server" where
  "cmd_leave s client_socket username target =
     (let chan = normalize_channel target in
      case map_of (channels s) chan of
        None \<Rightarrow>
          reply s client_socket
            (format_response (clock s) RESP_NOT_FOUND (''Channel '' @ chan @ '' not found.''))
      | Some ch \<Rightarrow>
          if username \<notin> users ch then
            reply s client_socket
              (format_response (clock s) RESP_ERROR (''You are not in '' @ chan @ ''.''))
          else
            let s1 = s\<lparr>channels :=
                       AList.map_entry chan (\<lambda>ch. ch\<lparr>users := users ch - {username}\<rparr>) (channels s)\<rparr>;
                s2 = broadcast_to_channel s1 chan
                       (format_message (clock s) ''SERVER'' ''system'' chan
                          (username @ '' has left '' @ chan)) None
            in case map_of (channels s2) chan of
                 None \<Rightarrow> (Raised, s2)
               | Some ch2 \<Rightarrow>
                   if users ch2 = {} \<and> chan \<notin> set [''#general'', ''#help'']
                   then (Returned, s2\<lparr>channels := AList.delete chan (channels s2)\<rparr>)
                   else (Returned, s2))"

definition cmd_list :: "server \<Rightarrow> sock \<Rightarrow> string \<Rightarrow> string \<Rightarrow> completion \<times> server" where
  "cmd_list s client_socket username target =
     (if target = [] \<or> target = ''channels'' then
        let channel_list =
              map (\<lambda>(chan_name, chan_data).
                     chan_name @ '' ('' @ str_nat (card (users chan_data)) @ '' users) - ''
                       @ topic chan_data) (channels s)
        in reply s client_socket
             (format_message (clock s) ''SERVER'' ''system'' username
                (''Available channels:'' @ [CHR 0x0A] @ join [CHR 0x0A] channel_list))
      else if startswith target ''#'' then
        (case map_of (channels s) target of
           None \<Rightarrow>
             reply s client_socket
               (format_response (clock s) RESP_NOT_FOUND (''Channel '' @ target @ '' not found.''))
         | Some ch \<Rightarrow>
             reply s client_socket
               (format_message (clock s) ''SERVER'' ''system'' username
                  (''Users in '' @ target @ '' ('' @ str_nat (card (users ch)) @ ''): ''
                     @ join '', '' (sorted_list_of_set (users ch)))))
      else
        reply s client_socket
          (format_message (clock s) ''SERVER'' ''system'' username
             (''Connected users ('' @ str_nat (length (usernames s)) @ ''): ''
                @ join '', '' (sort (taken_names s)))))"

definition cmd_msg :: "server \<Rightarrow> sock \<Rightarrow> string \<Rightarrow> string \<Rightarrow> string \<Rightarrow> completion \<times> server" where
  "cmd_msg s client_socket username target content =
     (let recipient = strip target in
      if recipient = [] \<or> content = [] then
        reply s client_socket
          (format_response (clock s) RESP_ERROR ''Usage: /msg <username> <message>'')
      else if recipient \<notin> set (taken_names s) then
        reply s client_socket
          (format_response (clock s) RESP_NOT_FOUND (''User '' @ recipient @ '' not found.''))
      else
        let private_message = format_message (clock s) username ''private'' recipient content;
            (sent, s1) = send_to_user s recipient private_message
        in if sent then
             reply s1 client_socket
               (format_message (clock s) ''SERVER'' ''system'' username
                  (''Message sent to '' @ recipient))
           else
             reply s1 client_socket
               (format_response (clock s) RESP_ERROR (''Failed to send message to '' @ recipient)))"

definition cmd_whois :: "server \<Rightarrow> sock \<Rightarrow> string \<Rightarrow> string \<Rightarrow> completion \<times> server" where
  "cmd_whois s client_socket username target =
     (let target_user = strip target in
      if target_user = [] then
        reply s client_socket (format_response (clock s) RESP_ERROR ''Usage: /whois <username>'')
      else if target_user \<notin> set (taken_names s) then
        reply s client_socket
          (format_response (clock s) RESP_NOT_FOUND (''User '' @ target_user @ '' not found.''))
      else
        let user_channels = map fst (filter (\<lambda>(chan_name, chan_data). target_user \<in> users chan_data) (channels s));
            connected_since =
              (case map_of (user_info s) target_user of
                 None \<Rightarrow> ''unknown''
               | Some info \<Rightarrow> str_nat (connected_at info))
        in reply s client_socket
             (format_message (clock s) ''SERVER'' ''system'' username
                (''User: '' @ target_user @ [CHR 0x0A] @ ''Channels: '' @ join '', '' user_channels
                   @ [CHR 0x0A] @ ''Connected since: '' @ connected_since)))"

definition cmd_kick_ban :: "server \<Rightarrow> sock \<Rightarrow> string \<Rightarrow> completion \<times> server" where
  "cmd_kick_ban s client_socket username =
     (if username \<notin> set (admins s) then
        reply s client_socket
          (format_response (clock s) RESP_FORBIDDEN
             (''You don'' @ [CHR 0x27] @ ''t have permission to use this command.''))
      else (Returned, s))"

definition cmd_quit :: "server \<Rightarrow> sock \<Rightarrow> string \<Rightarrow> string \<Rightarrow> completion \<times> server" where
  "cmd_quit s client_socket username content =
     (let quit_message = (if content \<noteq> [] then content else ''Leaving'');
          s1 = broadcast s (format_message (clock s) username ''system'' ''all''
                 (''has quit: '' @ quit_message))
      in (Returned, disconnect_client s1 client_socket))"

definition help_text :: string where
  "help_text =
     ''Available commands:'' @ [CHR 0x0A] @
     ''/nick <new_nickname> - Change your nickname'' @ [CHR 0x0A] @
     ''/join <channel> - Join a channel'' @ [CHR 0x0A] @
     ''/leave <channel> - Leave a channel'' @ [CHR 0x0A] @
     ''/list [channels|#channel] - List channels or users in a channel'' @ [CHR 0x0A] @
     ''/msg <username> <message> - Send private message'' @ [CHR 0x0A] @
     ''/whois <username> - Get information about a user'' @ [CHR 0x0A] @
     ''/quit [message] - Disconnect from server'' @ [CHR 0x0A] @
     ''/help - Show this help message''"

definition handle_command ::
  "server \<Rightarrow> sock \<Rightarrow> string \<Rightarrow> string \<Rightarrow> string \<Rightarrow> completion \<times> server"
where
  "handle_command s client_socket command target content =
     (case map_of (usernames s) client_socket of
        None \<Rightarrow> (Returned, s)
      | Some username \<Rightarrow>
          if username = [] then (Returned, s)
          else if command = CMD_NICK then cmd_nick s client_socket username target
          else if command = CMD_JOIN then cmd_join s client_socket username target
          else if command = CMD_LEAVE then cmd_leave s client_socket username target
          else if command = CMD_LIST then cmd_list s client_socket username target
          else if command = CMD_MSG then cmd_msg s client_socket username target content
          else if command = CMD_WHOIS then cmd_whois s client_socket username target
          else if command = CMD_KICK \<or> command = CMD_BAN then cmd_kick_ban s client_socket username
          else if command = CMD_QUIT then cmd_quit s client_socket username content
          else if command = CMD_HELP then
            reply s client_socket (format_message (clock s) ''SERVER'' ''system'' username help_text)
          else
            reply s client_socket
              (format_response (clock s) RESP_ERROR (''Unknown command: '' @ command)))"

section \<open>IRCServer: the connection handler\<close>

text \<open>
  \<open>run\<close> appends the accepted socket to \<open>self.clients\<close> and starts \<open>handle_client\<close>.
  The handler is modelled in the three pieces between which other handlers can run:
  the handshake, the body of the receive loop for one received text, and the
  \<open>finally\<close> clause, which is \<open>disconnect_client\<close>. The handshake takes the username
  after the first frame has been decoded, and the peer address that \<open>getpeername\<close>
  gives. The local variable \<open>username\<close> of \<open>handle_client\<close> is bound in the handshake
  and never assigned again; the loop body takes it as an argument.
\<close>

definition accept_client :: "server \<Rightarrow> sock \<Rightarrow> server" where
  "accept_client s client_socket = s\<lparr>clients := clients s @ [client_socket]\<rparr>"

definition refuse :: "server \<Rightarrow> sock \<Rightarrow> string \<Rightarrow> server" where
  \<comment> \<open>error response, \<open>close\<close>, \<open>return\<close>, and the \<open>finally\<close> clause\<close>
  "refuse s client_socket text =
     (case sock_send s client_socket (format_response (clock s) RESP_ERROR text) of
        None \<Rightarrow> disconnect_client s client_socket
      | Some s' \<Rightarrow> disconnect_client (sock_close s' client_socket) client_socket)"

definition handshake :: "server \<Rightarrow> sock \<Rightarrow> string \<Rightarrow> string \<Rightarrow> bool \<times> server" where
  \<comment> \<open>the flag tells whether the receive loop is entered; if not, the handler has ended
      and its \<open>finally\<close> clause has run\<close>
  "handshake s client_socket username addr =
     (if username = [] \<or> \<not> re_match_nick username then
        (False, refuse s client_socket
           ''Invalid username. Use 3-16 alphanumeric characters or underscores.'')
      else if username \<in> set (taken_names s) then
        (False, refuse s client_socket ''Username already in use. Please choose another one.'')
      else
        let s1 = s\<lparr>usernames := AList.update client_socket username (usernames s),
                   user_info := AList.update username
                     \<lparr>connected_at = clock s, ip = addr\<rparr> (user_info s)\<rparr>
        in if ''#general'' \<notin> set (channel_names s1) then (False, disconnect_client s1 client_socket)
           else
             let s2 = s1\<lparr>channels :=
                        AList.map_entry ''#general''
                          (\<lambda>ch. ch\<lparr>users := insert username (users ch)\<rparr>) (channels s1)\<rparr>
             in case sock_send s2 client_socket
                       (format_message (clock s) ''SERVER'' ''system'' username
                          (''Welcome to '' @ server_name @ '' v'' @ server_version @ ''! There are ''
                             @ str_nat (length (usernames s2)) @ '' users online.'' @ [CHR 0x0A]
                             @ ''Type /help for available commands.'')) of
                  None \<Rightarrow> (False, disconnect_client s2 client_socket)
                | Some s3 \<Rightarrow>
                    let s4 = broadcast s3 (format_message (clock s) ''SERVER'' ''system'' ''all''
                               (username @ '' has joined the server''));
                        s5 = broadcast_to_channel s4 ''#general''
                               (format_message (clock s) ''SERVER'' ''system'' ''#general''
                                  (username @ '' has joined #general'')) None
                    in (True, s5))"

definition post_plain :: "server \<Rightarrow> sock \<Rightarrow> string \<Rightarrow> string \<Rightarrow> completion \<times> server" where
  \<comment> \<open>lines 456 to 472: a received text that is not a command\<close>
  "post_plain s client_socket username message_str =
     (let user_channels = map fst (filter (\<lambda>(chan, data). username \<in> users data) (channels s)) in
      if user_channels \<noteq> [] then
        let target_channel =
              (if ''#general'' \<in> set user_channels then ''#general'' else user_channels ! 0)
        in (Returned,
            broadcast_to_channel s target_channel
              (format_message (clock s) username ''channel'' target_channel message_str) None)
      else
        reply s client_socket
          (format_response (clock s) RESP_ERROR
             ''You are not in any channel. Join a channel first.''))"

definition handle_line :: "server \<Rightarrow> sock \<Rightarrow> string \<Rightarrow> string \<Rightarrow> completion \<times> server" where
  \<comment> \<open>the body of the receive loop for a received, non-empty text\<close>
  "handle_line s client_socket username message_str =
     (case parse_command message_str of
        None \<Rightarrow> post_plain s client_socket username message_str
      | Some (command, target, content) \<Rightarrow>
          if command \<noteq> [] then handle_command s client_socket command target content
          else post_plain s client_socket username message_str)"

definition receive :: "server \<Rightarrow> sock \<Rightarrow> string \<Rightarrow> string \<Rightarrow> bool \<times> server" where
  \<comment> \<open>one turn of the receive loop; the flag tells whether the loop goes on. An empty
      read leaves the loop, and so does an exception; the \<open>finally\<close> clause follows.\<close>
  "receive s client_socket username message_str =
     (if message_str = [] then (False, disconnect_client s client_socket)
      else
        case handle_line s client_socket username message_str of
          (Returned, s') \<Rightarrow> (True, s')
        | (Raised, s') \<Rightarrow> (False, disconnect_client s' client_socket))"

section \<open>Scenarios\<close>

text \<open>
  The environment can take the peer of a connection away at any moment; from then on
  \<open>send\<close> on that socket raises.
\<close>

definition peer_gone :: "server \<Rightarrow> sock \<Rightarrow> server" where
  "peer_gone s c = s\<lparr>dead := insert c (dead s)\<rparr>"

definition alice_online :: server where
  \<comment> \<open>a fresh server; connection 1 is accepted and registers as \<open>alice\<close>\<close>
  "alice_online = snd (handshake (accept_client (init_server 0) 1) 1 ''alice'' ''10.0.0.1'')"

definition alice_in_x :: server where
  \<comment> \<open>then \<open>alice\<close> sends \<open>/join #x\<close>\<close>
  "alice_in_x = snd (receive alice_online 1 ''alice'' ''/join #x'')"

definition alice_gone :: server where
  \<comment> \<open>then her connection ends: the next read is empty\<close>
  "alice_gone = snd (receive alice_in_x 1 ''alice'' [])"

definition alice_renamed :: server where
  \<comment> \<open>\<open>alice\<close> sends \<open>/nick bob\<close> instead\<close>
  "alice_renamed = snd (receive alice_online 1 ''alice'' ''/nick bob'')"

definition alice_and_bob :: server where
  \<comment> \<open>connection 2 is accepted and registers as \<open>bob\<close>\<close>
  "alice_and_bob = snd (handshake (accept_client alice_online 2) 2 ''bob'' ''10.0.0.2'')"

definition bob_unreachable :: server where
  \<comment> \<open>the peer of connection 2 goes away\<close>
  "bob_unreachable = peer_gone alice_and_bob 2"

definition endswith :: "string \<Rightarrow> string \<Rightarrow> bool" where
  \<comment> \<open>\<open>s.endswith(p)\<close>\<close>
  "endswith s p = (length p \<le> length s \<and> drop (length s - length p) s = p)"

definition departure_notice :: "frame \<Rightarrow> bool" where
  \<comment> \<open>the frames that \<open>disconnect_client\<close> broadcasts (\<open>leave_message\<close>)\<close>
  "departure_notice f =
     (case f of
        Message sender message_type recipient content t \<Rightarrow>
          sender = ''SERVER'' \<and> message_type = ''system'' \<and> recipient = ''all''
            \<and> endswith content '' has left the server.''
      | Response code text t \<Rightarrow> False)"

definition listed_in :: "server \<Rightarrow> string \<Rightarrow> sock \<Rightarrow> bool" where
  \<comment> \<open>the username registered for the connection is in the member set of the channel\<close>
  "listed_in s chan d =
     (case map_of (usernames s) d of
        None \<Rightarrow> False
      | Some u \<Rightarrow> (case map_of (channels s) chan of None \<Rightarrow> False | Some ch \<Rightarrow> u \<in> users ch))"

section \<open>Termination of the broadcast loops\<close>

lemma delete_shorter: "map_of al k = Some v \<Longrightarrow> length (AList.delete k al) < length al"
  by (induction al) (auto simp: less_Suc_eq_le AList.delete_eq intro: le_trans[OF length_filter_le])

lemma sock_send_Some:
  "sock_send s c f = Some s' \<longleftrightarrow> c \<notin> dead s \<and> s' = s\<lparr>outbox := outbox s @ [(c, f)]\<rparr>"
  by (auto simp: sock_send_def)

lemma sock_send_None: "sock_send s c f = None \<longleftrightarrow> c \<in> dead s"
  by (simp add: sock_send_def)

lemma drop_client_sizes:
  "length (usernames (drop_client s c)) = length (usernames s)"
  "length (clients (drop_client s c)) \<le> length (clients s)"
  by (auto simp: drop_client_def sock_close_def length_remove1)

lemma shrink_partial:
  "disconnect_client_broadcast_from_dom (Inl (s, c)) \<Longrightarrow>
     length (usernames (disconnect_client s c)) \<le> length (usernames s) \<and>
     length (clients (disconnect_client s c)) \<le> length (clients s)"
  "disconnect_client_broadcast_from_dom (Inr (i, s, m)) \<Longrightarrow>
     length (usernames (broadcast_from i s m)) \<le> length (usernames s) \<and>
     length (clients (broadcast_from i s m)) \<le> length (clients s)"
proof (induct s c and i s m rule: disconnect_client_broadcast_from.pinduct)
  case (1 s c)
  show ?case
  proof (cases "map_of (usernames s) c")
    case None
    with 1(1) show ?thesis by (simp add: disconnect_client.psimps drop_client_sizes)
  next
    case (Some u)
    show ?thesis
    proof (cases "u = []")
      case True
      with Some 1(1) show ?thesis by (simp add: disconnect_client.psimps drop_client_sizes)
    next
      case False
      let ?b = "broadcast_from 0 (forget_user s c u) (leave_message s u)"
      from 1(2)[OF Some False]
      have "length (usernames ?b) \<le> length (usernames (forget_user s c u))"
        and "length (clients ?b) \<le> length (clients (forget_user s c u))"
        by simp_all
      moreover have "length (usernames (forget_user s c u)) \<le> length (usernames s)"
        using delete_shorter[OF Some] by (simp add: forget_user_def)
      moreover have "clients (forget_user s c u) = clients s" by (simp add: forget_user_def)
      moreover have "disconnect_client s c = drop_client ?b c"
        using Some False 1(1) by (simp add: disconnect_client.psimps)
      ultimately show ?thesis
        using drop_client_sizes[of ?b c] by simp
    qed
  qed
next
  case (2 i s m)
  show ?case
  proof (cases "i < length (clients s)")
    case False
    with 2(1) show ?thesis by (simp add: broadcast_from.psimps)
  next
    case True
    show ?thesis
    proof (cases "sock_send s (clients s ! i) m")
      case (Some s')
      then have "usernames s' = usernames s" "clients s' = clients s"
        by (auto simp: sock_send_Some)
      with 2(4)[OF True Some] True Some 2(1) show ?thesis
        by (simp add: broadcast_from.psimps)
    next
      case None
      from 2(2)[OF True None] 2(3)[OF True None] True None 2(1) show ?thesis
        by (simp add: broadcast_from.psimps)
    qed
  qed
qed

termination disconnect_client
proof (relation "inv_image (less_than <*lex*> less_than <*lex*> less_than)
    (\<lambda>x. case x of Inl (s, c) \<Rightarrow> (length (usernames s), 0::nat, 0::nat)
               | Inr (i, s, m) \<Rightarrow> (length (usernames s), 1, length (clients s) - i))",
    goal_cases)
  case 1
  show ?case by (intro wf_inv_image wf_lex_prod wf_less_than)
next
  case (2 s c u)
  then show ?case using delete_shorter[of "usernames s" c u] by (simp add: forget_user_def)
next
  case (3 i s m)
  then show ?case by simp
next
  case (4 i s m)
  with shrink_partial(1)[OF 4(3)] show ?case by auto
next
  case (5 i s m s')
  then have "usernames s' = usernames s" "clients s' = clients s"
    by (auto simp: sock_send_Some)
  with 5 show ?case by auto
qed

declare disconnect_client.simps [simp del] broadcast_from.simps [simp del]

section \<open>What a disconnection can change\<close>

lemma disconnect_broadcast_preserve:
  assumes send: "\<And>s c f s'. I s \<Longrightarrow> F f \<Longrightarrow> sock_send s c f = Some s' \<Longrightarrow> I s'"
    and forget: "\<And>s c u. I s \<Longrightarrow> map_of (usernames s) c = Some u \<Longrightarrow> u \<noteq> [] \<Longrightarrow> I (forget_user s c u)"
    and drop: "\<And>s c. I s \<Longrightarrow> I (drop_client s c)"
    and leave: "\<And>s u. F (leave_message s u)"
  shows "I s \<Longrightarrow> I (disconnect_client s c)"
    and "I s \<Longrightarrow> F m \<Longrightarrow> I (broadcast_from i s m)"
proof (induct s c and i s m rule: disconnect_client_broadcast_from.induct)
  case (1 s c)
  show ?case
  proof (cases "map_of (usernames s) c")
    case None
    with 1(2) show ?thesis by (simp add: disconnect_client.simps drop)
  next
    case (Some u)
    show ?thesis
    proof (cases "u = []")
      case True
      with Some 1(2) show ?thesis by (simp add: disconnect_client.simps drop)
    next
      case False
      have "I (broadcast_from 0 (forget_user s c u) (leave_message s u))"
        by (rule 1(1)[OF Some False forget[OF 1(2) Some False] leave])
      with Some False show ?thesis by (simp add: disconnect_client.simps drop)
    qed
  qed
next
  case (2 i s m)
  show ?case
  proof (cases "i < length (clients s)")
    case False
    with 2(4) show ?thesis by (simp add: broadcast_from.simps)
  next
    case True
    show ?thesis
    proof (cases "sock_send s (clients s ! i) m")
      case (Some s')
      from 2(3)[OF True Some send[OF 2(4) 2(5) Some] 2(5)] True Some show ?thesis
        by (simp add: broadcast_from.simps)
    next
      case None
      from 2(2)[OF True None 2(1)[OF True None 2(4)] 2(5)] True None show ?thesis
        by (simp add: broadcast_from.simps)
    qed
  qed
qed

lemma clients_shrink:
  "length (clients (disconnect_client s c)) \<le> length (clients s)"
  using disconnect_broadcast_preserve(1)[where I = "\<lambda>t. length (clients t) \<le> length (clients s)" and F = "\<lambda>_. True"]
  by (auto simp: sock_send_Some forget_user_def intro: le_trans[OF drop_client_sizes(2)])

lemma clients_shrink_step:
  "i < length (clients s) \<Longrightarrow>
     length (clients (disconnect_client s c)) - Suc i < length (clients s) - i"
  using clients_shrink[of s c] by simp

termination broadcast_to_channel_from
  by (relation "measure (\<lambda>(i, s, chan, m, e). length (clients s) - i)")
     (auto simp: sock_send_Some clients_shrink_step)

declare broadcast_to_channel_from.simps [simp del]

section \<open>The command parser\<close>








section \<open>Nicknames\<close>

lemma isspace_LF: "isspace (CHR 0x0A)"
  by (simp add: isspace_def)

lemma strip_last_not_space: "strip t \<noteq> [] \<Longrightarrow> \<not> isspace (last (strip t))"
proof -
  assume ne: "strip t \<noteq> []"
  define ys where "ys = dropWhile isspace (rev (dropWhile isspace t))"
  have st: "strip t = rev ys" by (simp add: strip_def ys_def)
  with ne have "ys \<noteq> []" by simp
  then have "\<not> isspace (hd ys)" unfolding ys_def by (rule hd_dropWhile)
  moreover have "last (strip t) = hd ys" using \<open>ys \<noteq> []\<close> st by (simp add: last_rev)
  ultimately show ?thesis by simp
qed

lemma re_match_nick_strip: "re_match_nick (strip t) \<longleftrightarrow> nick_pattern (strip t)"
  using strip_last_not_space[of t] isspace_LF by (auto simp: re_match_nick_def)

lemma nick_pattern_nonempty: "nick_pattern name \<Longrightarrow> name \<noteq> []"
  by (auto simp: nick_pattern_def)

lemma re_match_nick_nonempty: "re_match_nick name \<Longrightarrow> name \<noteq> []"
  by (auto simp: re_match_nick_def nick_pattern_def)

lemma taken_names_lookup: "map_of (usernames s) c = Some u \<Longrightarrow> u \<in> set (taken_names s)"
  by (auto simp: taken_names_def dest!: map_of_SomeD intro: rev_image_eqI)

lemma reply_cases:
  "reply s c f = (if c \<in> dead s then (Raised, s) else (Returned, s\<lparr>outbox := outbox s @ [(c, f)]\<rparr>))"
  by (simp add: reply_def sock_send_def)

lemma handle_command_nick:
  "map_of (usernames s) c = Some u \<Longrightarrow> u \<noteq> [] \<Longrightarrow>
     handle_command s c ''NICK'' target content = cmd_nick s c u target"
  by (simp add: handle_command_def CMD_NICK_def)

lemma cmd_nick_invalid:
  "\<not> nick_pattern (strip target) \<Longrightarrow>
     cmd_nick s c u target =
       reply s c (Response ''400''
         ''Invalid nickname. Use 3-16 alphanumeric characters or underscores.'' (clock s))"
  using re_match_nick_strip[of target]
  by (simp add: cmd_nick_def Let_def format_response_def RESP_ERROR_def)

lemma cmd_nick_taken:
  "nick_pattern (strip target) \<Longrightarrow> strip target \<in> set (taken_names s) \<Longrightarrow>
     cmd_nick s c u target = reply s c (Response ''400'' ''Nickname already in use.'' (clock s))"
  using re_match_nick_strip[of target] nick_pattern_nonempty[of "strip target"]
  by (simp add: cmd_nick_def Let_def format_response_def RESP_ERROR_def)

text \<open>
  C3. A registered client sends \<open>NICK\<close> with a name that does not match
  \<open>[A-Za-z0-9_]{3,16}\<close> or that a registered client holds. Then the server changes
  nothing but the log of sent frames: if the requester's connection takes the frame,
  a response with code 400 is sent to the requester and the handler returns; if that
  send raises, nothing at all has changed. The username index, the channels and their
  member sets are as before in both cases.
\<close>

theorem nick_rejected_keeps_state:
  assumes "map_of (usernames s) c = Some u" and "u \<noteq> []"
    and "\<not> nick_pattern (strip target) \<or> strip target \<in> set (taken_names s)"
  shows "\<exists>text. handle_command s c ''NICK'' target content =
           (if c \<in> dead s then (Raised, s)
            else (Returned, s\<lparr>outbox := outbox s @ [(c, Response ''400'' text (clock s))]\<rparr>))"
proof (cases "nick_pattern (strip target)")
  case False
  then show ?thesis
    using assms(1,2) by (auto simp: handle_command_nick cmd_nick_invalid reply_cases)
next
  case True
  with assms(3) have "strip target \<in> set (taken_names s)" by simp
  with True show ?thesis
    using assms(1,2) by (auto simp: handle_command_nick cmd_nick_taken reply_cases)
qed

theorem nick_rejected_keeps_state_witness:
  "map_of (usernames alice_and_bob) 1 = Some ''alice'' \<and> ''alice'' \<noteq> []
   \<and> strip ''bob'' \<in> set (taken_names alice_and_bob)
   \<and> (\<exists>text. handle_command alice_and_bob 1 ''NICK'' ''bob'' [] =
           (if 1 \<in> dead alice_and_bob then (Raised, alice_and_bob)
            else (Returned, alice_and_bob\<lparr>outbox := outbox alice_and_bob @
                    [(1, Response ''400'' text (clock alice_and_bob))]\<rparr>)))"
proof -
  have h1: "map_of (usernames alice_and_bob) 1 = Some ''alice''" by code_simp
  have h2: "''alice'' \<noteq> []" by simp
  have h3: "strip ''bob'' \<in> set (taken_names alice_and_bob)" by code_simp
  from nick_rejected_keeps_state[OF h1 h2 disjI2[OF h3]] h1 h2 h3 show ?thesis by blast
qed

text \<open>
  C10. A registered client sends \<open>NICK\<close> with its own current username (a name that
  passed the username check when it was registered). The duplicate check looks at all
  current usernames, the requester's own among them, so the request is refused with the
  400 response \<open>Nickname already in use.\<close> and nothing but the log of sent frames
  changes; if the send to the requester raises, nothing changes.
\<close>

theorem nick_own_name_rejected:
  assumes "map_of (usernames s) c = Some u" and "strip target = u" and "re_match_nick u"
  shows "handle_command s c ''NICK'' target content =
           (if c \<in> dead s then (Raised, s)
            else (Returned,
                  s\<lparr>outbox := outbox s @ [(c, Response ''400'' ''Nickname already in use.'' (clock s))]\<rparr>))"
proof -
  from assms(3) have ne: "u \<noteq> []" by (rule re_match_nick_nonempty)
  from assms(2,3) have pat: "nick_pattern (strip target)"
    using re_match_nick_strip[of target] by simp
  from assms(1,2) have "strip target \<in> set (taken_names s)"
    by (simp add: taken_names_lookup)
  with pat show ?thesis
    using assms(1) ne by (simp add: handle_command_nick cmd_nick_taken reply_cases)
qed

theorem nick_own_name_rejected_witness:
  "map_of (usernames alice_online) 1 = Some ''alice'' \<and> strip ''alice'' = ''alice''
   \<and> re_match_nick ''alice''
   \<and> handle_command alice_online 1 ''NICK'' ''alice'' [] =
           (if 1 \<in> dead alice_online then (Raised, alice_online)
            else (Returned,
                  alice_online\<lparr>outbox := outbox alice_online @
                    [(1, Response ''400'' ''Nickname already in use.'' (clock alice_online))]\<rparr>))"
proof -
  have h1: "map_of (usernames alice_online) 1 = Some ''alice''" by code_simp
  have h2: "strip ''alice'' = ''alice''" by code_simp
  have h3: "re_match_nick ''alice''" by code_simp
  from nick_own_name_rejected[OF h1 h2 h3] h1 h2 h3 show ?thesis by blast
qed

section \<open>Disconnections caused by a failed send\<close>

lemma dead_grows:
  "d \<in> dead s \<Longrightarrow> d \<in> dead (disconnect_client s c)"
  "d \<in> dead s \<Longrightarrow> d \<in> dead (broadcast_from i s m)"
  using disconnect_broadcast_preserve[where I = "\<lambda>t. d \<in> dead t" and F = "\<lambda>_. True"]
  by (auto simp: sock_send_Some forget_user_def drop_client_def sock_close_def)

text \<open>
  Inside a broadcast only clients whose socket has failed are disconnected, so an
  invariant need only survive the disconnection of such clients.
\<close>

lemma failed_send_preserve:
  assumes send: "\<And>s c f s'. I s \<Longrightarrow> F f \<Longrightarrow> sock_send s c f = Some s' \<Longrightarrow> I s'"
    and forget: "\<And>s c u. I s \<Longrightarrow> c \<in> dead s \<Longrightarrow> map_of (usernames s) c = Some u \<Longrightarrow> u \<noteq> []
                   \<Longrightarrow> I (forget_user s c u)"
    and drop: "\<And>s c. I s \<Longrightarrow> c \<in> dead s \<Longrightarrow> I (drop_client s c)"
    and leave: "\<And>s u. F (leave_message s u)"
  shows "I s \<Longrightarrow> c \<in> dead s \<Longrightarrow> I (disconnect_client s c)"
    and "I s \<Longrightarrow> F m \<Longrightarrow> I (broadcast_from i s m)"
proof (induct s c and i s m rule: disconnect_client_broadcast_from.induct)
  case (1 s c)
  show ?case
  proof (cases "map_of (usernames s) c")
    case None
    with 1(2,3) show ?thesis by (simp add: disconnect_client.simps drop)
  next
    case (Some u)
    show ?thesis
    proof (cases "u = []")
      case True
      with Some 1(2,3) show ?thesis by (simp add: disconnect_client.simps drop)
    next
      case False
      let ?b = "broadcast_from 0 (forget_user s c u) (leave_message s u)"
      have "I ?b"
        by (rule 1(1)[OF Some False forget[OF 1(2,3) Some False] leave])
      moreover have "c \<in> dead ?b"
        using 1(3) by (intro dead_grows) (simp add: forget_user_def)
      ultimately show ?thesis
        using Some False by (simp add: disconnect_client.simps drop)
    qed
  qed
next
  case (2 i s m)
  show ?case
  proof (cases "i < length (clients s)")
    case False
    with 2(4) show ?thesis by (simp add: broadcast_from.simps)
  next
    case True
    show ?thesis
    proof (cases "sock_send s (clients s ! i) m")
      case (Some s')
      from 2(3)[OF True Some send[OF 2(4) 2(5) Some] 2(5)] True Some show ?thesis
        by (simp add: broadcast_from.simps)
    next
      case None
      then have "clients s ! i \<in> dead s" by (simp add: sock_send_None)
      from 2(2)[OF True None 2(1)[OF True None 2(4) this] 2(5)] True None show ?thesis
        by (simp add: broadcast_from.simps)
    qed
  qed
qed

lemma live_stays_live:
  assumes live: "c \<notin> dead s"
  shows "d \<in> dead s \<Longrightarrow> c \<notin> dead (disconnect_client s d)"
    and "c \<notin> dead (broadcast_from i s m)"
proof -
  let ?I = "\<lambda>t. c \<notin> dead t"
  have send: "?I t'" if "?I t" "True" "sock_send t x f = Some t'" for t x f t'
    using that by (auto simp: sock_send_Some)
  have forget: "?I (forget_user t x u)" if "?I t" for t x u
    using that by (simp add: forget_user_def)
  have drop: "?I (drop_client t x)" if "?I t" "x \<in> dead t" for t x
    using that by (auto simp: drop_client_def sock_close_def)
  show "c \<notin> dead (disconnect_client s d)" if "d \<in> dead s"
    by (rule failed_send_preserve(1)[where I = ?I and F = "\<lambda>_. True", OF send forget drop TrueI live that])
  show "c \<notin> dead (broadcast_from i s m)"
    by (rule failed_send_preserve(2)[where I = ?I and F = "\<lambda>_. True", OF send forget drop TrueI live TrueI])
qed

lemma departure_notice_leave: "departure_notice (leave_message s u)"
  by (simp add: departure_notice_def leave_message_def format_message_def endswith_def)

lemma outbox_grows:
  assumes leave: "\<And>s u. F (leave_message s u)"
  shows "\<exists>ns. outbox (disconnect_client s c) = outbox s @ ns \<and> (\<forall>(d, f) \<in> set ns. F f)"
    and "F m \<Longrightarrow> \<exists>ns. outbox (broadcast_from i s m) = outbox s @ ns \<and> (\<forall>(d, f) \<in> set ns. F f)"
proof -
  let ?I = "\<lambda>t. \<exists>ns. outbox t = outbox s @ ns \<and> (\<forall>(d, f) \<in> set ns. F f)"
  have send: "?I t'" if "?I t" "F f" "sock_send t c f = Some t'" for t c f t'
  proof -
    from that(1) obtain ns where "outbox t = outbox s @ ns" "\<forall>(d, f) \<in> set ns. F f" by blast
    with that(2,3) have "outbox t' = outbox s @ (ns @ [(c, f)]) \<and> (\<forall>(d, f) \<in> set (ns @ [(c, f)]). F f)"
      by (auto simp: sock_send_Some)
    then show ?thesis by blast
  qed
  have forget: "?I (forget_user t c u)" if "?I t" for t c u
    using that by (simp add: forget_user_def)
  have drop: "?I (drop_client t c)" if "?I t" for t c
    using that by (simp add: drop_client_def sock_close_def)
  have init: "?I s" by simp
  show "?I (disconnect_client s c)"
    by (rule disconnect_broadcast_preserve(1)[where I = ?I and F = F, OF send forget drop leave init])
  show "?I (broadcast_from i s m)" if "F m"
    by (rule disconnect_broadcast_preserve(2)[where I = ?I and F = F, OF send forget drop leave init that])
qed

section \<open>Private messages\<close>

lemma handle_command_msg:
  "map_of (usernames s) c = Some u \<Longrightarrow> u \<noteq> [] \<Longrightarrow>
     handle_command s c ''MSG'' target content = cmd_msg s c u target content"
  by (simp add: handle_command_def CMD_NICK_def CMD_JOIN_def CMD_LEAVE_def CMD_LIST_def CMD_MSG_def)

lemma find_by_name:
  "name \<in> set (map snd al) \<Longrightarrow> \<exists>r. find (\<lambda>(client, n). n = name) al = Some (r, name)"
  by (induction al) auto

lemma send_to_user_found:
  "find (\<lambda>(client, n). n = name) (usernames s) = Some (r, name) \<Longrightarrow>
     send_to_user s name m =
       (if r \<in> dead s then (False, disconnect_client s r)
        else (True, s\<lparr>outbox := outbox s @ [(r, m)]\<rparr>))"
  by (simp add: send_to_user_def sock_send_def)

text \<open>
  C4, as the code has it. The requester is registered and its connection takes frames.
  \<^item> With an empty target or empty content the requester gets a 400 response and nothing
    else is sent.
  \<^item> With a target that is no current username the requester gets a 404 response and
    nothing else is sent.
  \<^item> Otherwise the frame goes to the first connection registered under that name. If that
    socket takes it, exactly the private frame (sender, \<open>private\<close>, recipient, content)
    is delivered to it, followed by the confirmation to the requester.
  \<^item> If that socket raises, no private frame is delivered: the recipient is disconnected
    (which sends departure notices only), and the requester gets the 400 response
    \<open>Failed to send message to ...\<close>.
\<close>

theorem msg_outcomes:
  assumes "map_of (usernames s) c = Some u" and "u \<noteq> []" and "c \<notin> dead s"
  shows
    "(strip target = [] \<or> content = [] \<longrightarrow>
        handle_command s c ''MSG'' target content =
          (Returned, s\<lparr>outbox := outbox s @
             [(c, Response ''400'' ''Usage: /msg <username> <message>'' (clock s))]\<rparr>))
     \<and> (strip target \<noteq> [] \<and> content \<noteq> [] \<and> strip target \<notin> set (taken_names s) \<longrightarrow>
        handle_command s c ''MSG'' target content =
          (Returned, s\<lparr>outbox := outbox s @
             [(c, Response ''404'' (''User '' @ strip target @ '' not found.'') (clock s))]\<rparr>))
     \<and> (strip target \<noteq> [] \<and> content \<noteq> [] \<and> strip target \<in> set (taken_names s) \<longrightarrow>
        (\<exists>r. find (\<lambda>(client, n). n = strip target) (usernames s) = Some (r, strip target)
           \<and> (r \<notin> dead s \<longrightarrow>
                handle_command s c ''MSG'' target content =
                  (Returned, s\<lparr>outbox := outbox s @
                     [(r, Message u ''private'' (strip target) content (clock s)),
                      (c, Message ''SERVER'' ''system'' u
                            (''Message sent to '' @ strip target) (clock s))]\<rparr>))
           \<and> (r \<in> dead s \<longrightarrow>
                (\<exists>ns. handle_command s c ''MSG'' target content =
                         (Returned, (disconnect_client s r)\<lparr>outbox := outbox s @ ns @
                            [(c, Response ''400''
                                   (''Failed to send message to '' @ strip target) (clock s))]\<rparr>)
                       \<and> (\<forall>(d, f) \<in> set ns. departure_notice f)))))"
proof (intro conjI impI)
  assume "strip target = [] \<or> content = []"
  then show "handle_command s c ''MSG'' target content =
          (Returned, s\<lparr>outbox := outbox s @
             [(c, Response ''400'' ''Usage: /msg <username> <message>'' (clock s))]\<rparr>)"
    using assms
    by (auto simp: handle_command_msg cmd_msg_def reply_cases format_response_def RESP_ERROR_def)
next
  assume "strip target \<noteq> [] \<and> content \<noteq> [] \<and> strip target \<notin> set (taken_names s)"
  then show "handle_command s c ''MSG'' target content =
          (Returned, s\<lparr>outbox := outbox s @
             [(c, Response ''404'' (''User '' @ strip target @ '' not found.'') (clock s))]\<rparr>)"
    using assms
    by (simp add: handle_command_msg cmd_msg_def reply_cases format_response_def RESP_NOT_FOUND_def)
next
  assume a: "strip target \<noteq> [] \<and> content \<noteq> [] \<and> strip target \<in> set (taken_names s)"
  then obtain r where r: "find (\<lambda>(client, n). n = strip target) (usernames s) = Some (r, strip target)"
    using find_by_name[of "strip target" "usernames s"] by (auto simp: taken_names_def)
  let ?pm = "format_message (clock s) u ''private'' (strip target) content"
  have cmd: "handle_command s c ''MSG'' target content =
      (case send_to_user s (strip target) ?pm of
         (sent, s1) \<Rightarrow>
           if sent then
             reply s1 c (format_message (clock s) ''SERVER'' ''system'' u
                  (''Message sent to '' @ strip target))
           else
             reply s1 c (format_response (clock s) RESP_ERROR
                  (''Failed to send message to '' @ strip target)))"
    using assms(1,2) a by (simp add: handle_command_msg cmd_msg_def Let_def)
  have ok: "handle_command s c ''MSG'' target content =
                  (Returned, s\<lparr>outbox := outbox s @
                     [(r, Message u ''private'' (strip target) content (clock s)),
                      (c, Message ''SERVER'' ''system'' u
                            (''Message sent to '' @ strip target) (clock s))]\<rparr>)"
    if "r \<notin> dead s"
    using that assms(3)
    by (simp add: cmd send_to_user_found[OF r] reply_cases format_message_def)
  have failed: "\<exists>ns. handle_command s c ''MSG'' target content =
                         (Returned, (disconnect_client s r)\<lparr>outbox := outbox s @ ns @
                            [(c, Response ''400''
                                   (''Failed to send message to '' @ strip target) (clock s))]\<rparr>)
                       \<and> (\<forall>(d, f) \<in> set ns. departure_notice f)"
    if "r \<in> dead s"
  proof -
    from outbox_grows(1)[where F = departure_notice, OF departure_notice_leave]
    obtain ns where ns: "outbox (disconnect_client s r) = outbox s @ ns"
      "\<forall>(d, f) \<in> set ns. departure_notice f" by blast
    have "c \<notin> dead (disconnect_client s r)"
      using live_stays_live(1)[OF assms(3) that] .
    then have "handle_command s c ''MSG'' target content =
        (Returned, (disconnect_client s r)\<lparr>outbox := outbox s @ ns @
           [(c, Response ''400'' (''Failed to send message to '' @ strip target) (clock s))]\<rparr>)"
      using that ns(1)
      by (simp add: cmd send_to_user_found[OF r] reply_cases format_response_def RESP_ERROR_def)
    with ns(2) show ?thesis by blast
  qed
  from r ok failed
  show "\<exists>r. find (\<lambda>(client, n). n = strip target) (usernames s) = Some (r, strip target)
           \<and> (r \<notin> dead s \<longrightarrow>
                handle_command s c ''MSG'' target content =
                  (Returned, s\<lparr>outbox := outbox s @
                     [(r, Message u ''private'' (strip target) content (clock s)),
                      (c, Message ''SERVER'' ''system'' u
                            (''Message sent to '' @ strip target) (clock s))]\<rparr>))
           \<and> (r \<in> dead s \<longrightarrow>
                (\<exists>ns. handle_command s c ''MSG'' target content =
                         (Returned, (disconnect_client s r)\<lparr>outbox := outbox s @ ns @
                            [(c, Response ''400''
                                   (''Failed to send message to '' @ strip target) (clock s))]\<rparr>)
                       \<and> (\<forall>(d, f) \<in> set ns. departure_notice f)))"
    by blast
qed

theorem msg_outcomes_witness:
  "map_of (usernames bob_unreachable) 1 = Some ''alice'' \<and> ''alice'' \<noteq> []
   \<and> 1 \<notin> dead bob_unreachable
   \<and> strip ''bob'' \<noteq> [] \<and> ''hello'' \<noteq> [] \<and> strip ''bob'' \<in> set (taken_names bob_unreachable)
   \<and> find (\<lambda>(client, n). n = strip ''bob'') (usernames bob_unreachable) = Some (2, strip ''bob'')
   \<and> 2 \<in> dead bob_unreachable
   \<and> (\<exists>ns. handle_command bob_unreachable 1 ''MSG'' ''bob'' ''hello'' =
              (Returned, (disconnect_client bob_unreachable 2)\<lparr>outbox := outbox bob_unreachable @ ns @
                 [(1, Response ''400'' (''Failed to send message to '' @ strip ''bob'')
                        (clock bob_unreachable))]\<rparr>)
            \<and> (\<forall>(d, f) \<in> set ns. departure_notice f))"
proof -
  have h1: "map_of (usernames bob_unreachable) 1 = Some ''alice''" by code_simp
  have h2: "''alice'' \<noteq> []" by simp
  have h3: "1 \<notin> dead bob_unreachable" by code_simp
  have h4: "strip ''bob'' \<noteq> [] \<and> ''hello'' \<noteq> [] \<and> strip ''bob'' \<in> set (taken_names bob_unreachable)"
    by code_simp
  have h5: "find (\<lambda>(client, n). n = strip ''bob'') (usernames bob_unreachable) = Some (2, strip ''bob'')"
    by code_simp
  have h6: "2 \<in> dead bob_unreachable" by code_simp
  from msg_outcomes[OF h1 h2 h3, of "''bob''" "''hello''"] h4
  obtain r where r: "find (\<lambda>(client, n). n = strip ''bob'') (usernames bob_unreachable) = Some (r, strip ''bob'')"
    and "r \<in> dead bob_unreachable \<longrightarrow>
      (\<exists>ns. handle_command bob_unreachable 1 ''MSG'' ''bob'' ''hello'' =
              (Returned, (disconnect_client bob_unreachable r)\<lparr>outbox := outbox bob_unreachable @ ns @
                 [(1, Response ''400'' (''Failed to send message to '' @ strip ''bob'')
                        (clock bob_unreachable))]\<rparr>)
            \<and> (\<forall>(d, f) \<in> set ns. departure_notice f))"
    by blast
  moreover from r h5 have "r = 2" by simp
  ultimately show ?thesis using h1 h2 h3 h4 h5 h6 by blast
qed

text \<open>
  C4 as stated fails where the recipient's socket raises: \<open>alice\<close> and \<open>bob\<close> are
  registered, the peer of \<open>bob\<close> has gone away, and \<open>alice\<close> sends \<open>/msg bob hello\<close>.
  Target and content are not empty and \<open>bob\<close> is a registered username, yet no private
  frame is delivered and \<open>alice\<close> gets a 400 response instead of the confirmation.
\<close>

theorem msg_unreachable_recipient_counterexample:
  "map_of (usernames bob_unreachable) 1 = Some ''alice''
   \<and> strip ''bob'' \<noteq> [] \<and> ''hello'' \<noteq> [] \<and> ''bob'' \<in> set (taken_names bob_unreachable)
   \<and> fst (handle_command bob_unreachable 1 ''MSG'' ''bob'' ''hello'') = Returned
   \<and> outbox (snd (handle_command bob_unreachable 1 ''MSG'' ''bob'' ''hello'')) =
       outbox bob_unreachable @
         [(1, Message ''SERVER'' ''system'' ''all'' ''bob has left the server.'' 0),
          (1, Response ''400'' ''Failed to send message to bob'' 0)]"
  by code_simp

section \<open>Channels that stay behind\<close>

text \<open>
  C1 at a failing input. On a fresh server \<open>alice\<close> registers, sends \<open>/join #x\<close> and
  then her connection ends. \<open>disconnect_client\<close> takes her out of the member set of
  \<open>#x\<close> but, unlike the \<open>LEAVE\<close> branch, never deletes the channel: \<open>#x\<close>, which is
  not a default channel, is still there with no member.
\<close>

theorem channel_survives_disconnect:
  "usernames alice_gone = [] \<and> clients alice_gone = []
   \<and> map_of (channels alice_gone) ''#x'' =
       Some \<lparr>users = {}, topic = ''Welcome to #x'', created_at = 0\<rparr>
   \<and> ''#x'' \<notin> set [''#general'', ''#help'']"
  by code_simp

section \<open>Plain posts after a rename\<close>

text \<open>
  C5 at a failing input. \<open>alice\<close> registers and sends \<open>/nick bob\<close>. The rename moves
  her to \<open>bob\<close> in the username index and in \<open>#general\<close>, but the local variable
  \<open>username\<close> of her handler still holds \<open>alice\<close>. Her next plain text \<open>hello\<close> is
  therefore looked up under \<open>alice\<close>, who is in no channel: it is answered with the
  400 response and not posted to \<open>#general\<close>, of which the sender is a member.
\<close>

theorem plain_post_after_rename:
  "map_of (usernames alice_renamed) 1 = Some ''bob''
   \<and> map_option users (map_of (channels alice_renamed) ''#general'') = Some {''bob''}
   \<and> parse_command ''hello'' = None
   \<and> receive alice_renamed 1 ''alice'' ''hello'' =
       (True, alice_renamed\<lparr>outbox := outbox alice_renamed @
          [(1, Response ''400'' ''You are not in any channel. Join a channel first.'' 0)]\<rparr>)"
  by code_simp

section \<open>Disconnecting a client\<close>

lemma registry_preserve:
  assumes forget: "\<And>t x u. I t \<Longrightarrow> I (forget_user t x u)"
    and drop: "\<And>t x. I t \<Longrightarrow> I (drop_client t x)"
    and out: "\<And>t ob. I t \<Longrightarrow> I (t\<lparr>outbox := ob\<rparr>)"
  shows "I s \<Longrightarrow> I (disconnect_client s c)"
    and "I s \<Longrightarrow> I (broadcast_from i s m)"
proof -
  have send: "I t'" if "I t" "True" "sock_send t x f = Some t'" for t x f t'
    using that out by (auto simp: sock_send_Some)
  have forget': "I (forget_user t x u)" if "I t" "map_of (usernames t) x = Some u" "u \<noteq> []" for t x u
    using that forget by simp
  show "I (disconnect_client s c)" if "I s"
    by (rule disconnect_broadcast_preserve(1)[where I = I and F = "\<lambda>_. True", OF send forget' drop TrueI that])
  show "I (broadcast_from i s m)" if "I s"
    by (rule disconnect_broadcast_preserve(2)[where I = I and F = "\<lambda>_. True", OF send forget' drop TrueI that TrueI])
qed

lemma unregistered_stays:
  "map_of (usernames s) c = None \<Longrightarrow> map_of (usernames (disconnect_client s d)) c = None"
  "map_of (usernames s) c = None \<Longrightarrow> map_of (usernames (broadcast_from i s m)) c = None"
  by (rule registry_preserve[where I = "\<lambda>t. map_of (usernames t) c = None"];
      simp add: forget_user_def drop_client_def sock_close_def delete_conv)+

lemma not_member_stays:
  "\<forall>(n, ch) \<in> set (channels s). u \<notin> users ch \<Longrightarrow>
     \<forall>(n, ch) \<in> set (channels (disconnect_client s d)). u \<notin> users ch"
  "\<forall>(n, ch) \<in> set (channels s). u \<notin> users ch \<Longrightarrow>
     \<forall>(n, ch) \<in> set (channels (broadcast_from i s m)). u \<notin> users ch"
  by (rule registry_preserve[where I = "\<lambda>t. \<forall>(n, ch) \<in> set (channels t). u \<notin> users ch"];
      auto simp: forget_user_def drop_client_def sock_close_def remove_from_channels_def
        split: if_splits)+

lemma no_info_stays:
  "map_of (user_info s) u = None \<Longrightarrow> map_of (user_info (disconnect_client s d)) u = None"
  "map_of (user_info s) u = None \<Longrightarrow> map_of (user_info (broadcast_from i s m)) u = None"
  by (rule registry_preserve[where I = "\<lambda>t. map_of (user_info t) u = None"];
      simp add: forget_user_def drop_client_def sock_close_def delete_conv)+

lemma distinct_clients_stays:
  "distinct (clients s) \<Longrightarrow> distinct (clients (disconnect_client s d))"
  "distinct (clients s) \<Longrightarrow> distinct (clients (broadcast_from i s m))"
  by (rule registry_preserve[where I = "\<lambda>t. distinct (clients t)"];
      simp add: forget_user_def drop_client_def sock_close_def)+

lemma forget_user_forgets:
  "map_of (usernames (forget_user s c u)) c = None"
  "map_of (user_info (forget_user s c u)) u = None"
  "\<forall>(n, ch) \<in> set (channels (forget_user s c u)). u \<notin> users ch"
  by (auto simp: forget_user_def delete_conv remove_from_channels_def split: if_splits)

lemma drop_client_fields:
  "usernames (drop_client s c) = usernames s"
  "channels (drop_client s c) = channels s"
  "user_info (drop_client s c) = user_info s"
  "c \<in> dead (drop_client s c)"
  "distinct (clients s) \<Longrightarrow> c \<notin> set (clients (drop_client s c))"
  by (auto simp: drop_client_def sock_close_def)

lemma drop_client_again:
  "c \<notin> set (clients s) \<Longrightarrow> c \<in> dead s \<Longrightarrow> drop_client s c = s"
  by (simp add: drop_client_def sock_close_def insert_absorb)

lemma disconnect_client_shape:
  "\<exists>t. disconnect_client s c = drop_client t c
       \<and> (distinct (clients s) \<longrightarrow> distinct (clients t))
       \<and> (map_of (usernames t) c = None \<or> map_of (usernames t) c = Some [])
       \<and> (\<forall>u. map_of (usernames s) c = Some u \<and> u \<noteq> [] \<longrightarrow>
             map_of (usernames t) c = None \<and> map_of (user_info t) u = None
             \<and> (\<forall>(n, ch) \<in> set (channels t). u \<notin> users ch))"
proof (cases "map_of (usernames s) c")
  case None
  then have "disconnect_client s c = drop_client s c" by (simp add: disconnect_client.simps)
  with None show ?thesis by auto
next
  case (Some u)
  show ?thesis
  proof (cases "u = []")
    case True
    with Some have "disconnect_client s c = drop_client s c" by (simp add: disconnect_client.simps)
    with Some True show ?thesis by auto
  next
    case False
    let ?t = "broadcast_from 0 (forget_user s c u) (leave_message s u)"
    have "disconnect_client s c = drop_client ?t c"
      using Some False by (simp add: disconnect_client.simps)
    moreover have "distinct (clients s) \<longrightarrow> distinct (clients ?t)"
      by (auto intro!: distinct_clients_stays(2) simp: forget_user_def)
    moreover have "map_of (usernames ?t) c = None"
      by (intro unregistered_stays(2) forget_user_forgets)
    moreover have "map_of (user_info ?t) u = None"
      by (intro no_info_stays(2) forget_user_forgets)
    moreover have "\<forall>(n, ch) \<in> set (channels ?t). u \<notin> users ch"
      by (intro not_member_stays(2) forget_user_forgets)
    ultimately show ?thesis using Some by auto
  qed
qed

text \<open>
  C7. \<open>disconnect_client\<close> is a total function of the server state: every statement in
  it that could raise is guarded by a membership test or sits inside \<open>try\<close>/\<open>except\<close>,
  and the recursion through \<open>broadcast\<close> ends (the termination proof above). For a
  client registered as \<open>u\<close>, afterwards no channel lists \<open>u\<close>, the connection has no
  entry in the username index and \<open>u\<close> has no entry in the metadata store. If no socket
  is listed twice in the client list, the connection is off that list, and disconnecting
  it a second time changes nothing.
\<close>

theorem disconnect_client_removes_idempotent:
  assumes "distinct (clients s)"
  shows "(\<forall>u. map_of (usernames s) c = Some u \<and> u \<noteq> [] \<longrightarrow>
            (\<forall>(n, ch) \<in> set (channels (disconnect_client s c)). u \<notin> users ch)
            \<and> map_of (usernames (disconnect_client s c)) c = None
            \<and> map_of (user_info (disconnect_client s c)) u = None)
         \<and> c \<notin> set (clients (disconnect_client s c))
         \<and> disconnect_client (disconnect_client s c) c = disconnect_client s c"
proof -
  from disconnect_client_shape[of s c] assms obtain t where
    t: "disconnect_client s c = drop_client t c" "distinct (clients t)"
      "map_of (usernames t) c = None \<or> map_of (usernames t) c = Some []"
      "\<forall>u. map_of (usernames s) c = Some u \<and> u \<noteq> [] \<longrightarrow>
             map_of (usernames t) c = None \<and> map_of (user_info t) u = None
             \<and> (\<forall>(n, ch) \<in> set (channels t). u \<notin> users ch)"
    by blast
  let ?s' = "disconnect_client s c"
  have off: "c \<notin> set (clients ?s')" "c \<in> dead ?s'"
    using t(1,2) by (simp_all add: drop_client_fields)
  have "map_of (usernames ?s') c = None \<or> map_of (usernames ?s') c = Some []"
    using t(1,3) by (simp add: drop_client_fields)
  then have "disconnect_client ?s' c = drop_client ?s' c"
    by (auto simp: disconnect_client.simps)
  also have "\<dots> = ?s'" using off by (rule drop_client_again)
  finally have idem: "disconnect_client ?s' c = ?s'" .
  from t(4) off(1) idem show ?thesis by (auto simp: t(1) drop_client_fields(1-3))
qed

theorem disconnect_client_removes_idempotent_witness:
  "distinct (clients alice_in_x) \<and> map_of (usernames alice_in_x) 1 = Some ''alice'' \<and> ''alice'' \<noteq> []
   \<and> \<not> (\<exists>(n, ch) \<in> set (channels (disconnect_client alice_in_x 1)). ''alice'' \<in> users ch)
   \<and> map_of (usernames (disconnect_client alice_in_x 1)) 1 = None
   \<and> map_of (user_info (disconnect_client alice_in_x 1)) ''alice'' = None
   \<and> 1 \<notin> set (clients (disconnect_client alice_in_x 1))
   \<and> disconnect_client (disconnect_client alice_in_x 1) 1 = disconnect_client alice_in_x 1"
proof -
  have h1: "distinct (clients alice_in_x)" by code_simp
  have h2: "map_of (usernames alice_in_x) 1 = Some ''alice''" by code_simp
  have h3: "''alice'' \<noteq> []" by simp
  from disconnect_client_removes_idempotent[OF h1, of 1] h2 h3
  have a: "\<forall>(n, ch) \<in> set (channels (disconnect_client alice_in_x 1)). ''alice'' \<notin> users ch"
    and b: "map_of (usernames (disconnect_client alice_in_x 1)) 1 = None"
      "map_of (user_info (disconnect_client alice_in_x 1)) ''alice'' = None"
      "1 \<notin> set (clients (disconnect_client alice_in_x 1))"
      "disconnect_client (disconnect_client alice_in_x 1) 1 = disconnect_client alice_in_x 1"
    by blast+
  from a have "\<not> (\<exists>(n, ch) \<in> set (channels (disconnect_client alice_in_x 1)). ''alice'' \<in> users ch)"
    by fast
  with h1 h2 h3 b show ?thesis by blast
qed

section \<open>A successful rename\<close>

lemma map_of_remove_from_channels:
  "map_of (remove_from_channels u chans) n =
     map_option (\<lambda>ch. if u \<in> users ch then ch\<lparr>users := users ch - {u}\<rparr> else ch) (map_of chans n)"
  by (induction chans) (auto simp: remove_from_channels_def)

lemma map_of_rename_in_channels:
  "map_of (rename_in_channels old new chans) n =
     map_option (\<lambda>ch. if old \<in> users ch then ch\<lparr>users := insert new (users ch - {old})\<rparr> else ch)
       (map_of chans n)"
  by (induction chans) (auto simp: rename_in_channels_def)

lemma cmd_nick_accepted:
  assumes "nick_pattern (strip target)" and "strip target \<notin> set (taken_names s)"
  shows "cmd_nick s c old target =
     (Returned,
      broadcast
        (s\<lparr>usernames := AList.update c (strip target) (usernames s),
           channels := rename_in_channels old (strip target) (channels s)\<rparr>)
        (format_message (clock s) ''SERVER'' ''system'' ''all''
           (old @ '' is now known as '' @ strip target)))"
  using assms re_match_nick_strip[of target] nick_pattern_nonempty[of "strip target"]
  by (simp add: cmd_nick_def Let_def)

text \<open>
  C2. A registered client \<open>old\<close> whose connection takes frames sends \<open>NICK\<close> with a
  name that matches \<open>[A-Za-z0-9_]{3,16}\<close> and that no registered client holds. Then
  the command returns, the username index maps the connection to the new name, every
  channel that listed \<open>old\<close> lists the new name, and no channel lists \<open>old\<close>; this
  holds whatever other clients are dropped while the notice is broadcast.
\<close>

theorem nick_renames_everywhere:
  assumes reg: "map_of (usernames s) c = Some old" and ne: "old \<noteq> []"
    and valid: "nick_pattern (strip target)"
    and fresh: "strip target \<notin> set (taken_names s)"
    and live: "c \<notin> dead s"
  shows "fst (handle_command s c ''NICK'' target content) = Returned
     \<and> map_of (usernames (snd (handle_command s c ''NICK'' target content))) c = Some (strip target)
     \<and> (\<forall>n ch. map_of (channels s) n = Some ch \<and> old \<in> users ch \<longrightarrow>
           (\<exists>ch'. map_of (channels (snd (handle_command s c ''NICK'' target content))) n = Some ch'
                  \<and> strip target \<in> users ch'))
     \<and> (\<forall>(n, ch) \<in> set (channels (snd (handle_command s c ''NICK'' target content))).
           old \<notin> users ch)"
proof -
  define new where "new = strip target"
  define s2 where "s2 = s\<lparr>usernames := AList.update c new (usernames s),
                           channels := rename_in_channels old new (channels s)\<rparr>"
  define m where "m = format_message (clock s) ''SERVER'' ''system'' ''all''
                        (old @ '' is now known as '' @ new)"
  let ?I = "\<lambda>t. c \<notin> dead t \<and> map_of (usernames t) c = Some new
      \<and> (\<forall>d u. map_of (usernames t) d = Some u \<and> d \<noteq> c \<longrightarrow> u \<noteq> new)
      \<and> (\<forall>n ch. map_of (channels s) n = Some ch \<and> old \<in> users ch \<longrightarrow>
            (\<exists>ch'. map_of (channels t) n = Some ch' \<and> new \<in> users ch'))
      \<and> (\<forall>(n, ch) \<in> set (channels t). old \<notin> users ch)"
  have cmd: "handle_command s c ''NICK'' target content = (Returned, broadcast_from 0 s2 m)"
    using reg ne valid fresh
    by (simp add: handle_command_nick cmd_nick_accepted broadcast_def s2_def m_def new_def)
  have old_taken: "old \<in> set (taken_names s)" using reg by (rule taken_names_lookup)
  with fresh have diff: "old \<noteq> new" by (auto simp: new_def)
  have init: "?I s2"
  proof (intro conjI allI impI)
    show "c \<notin> dead s2" using live by (simp add: s2_def)
    show "map_of (usernames s2) c = Some new" by (simp add: s2_def update_conv)
  next
    fix d u assume "map_of (usernames s2) d = Some u \<and> d \<noteq> c"
    then have "map_of (usernames s) d = Some u"
      by (auto simp: s2_def update_conv split: if_splits)
    then have "u \<in> set (taken_names s)" by (rule taken_names_lookup)
    with fresh show "u \<noteq> new" by (auto simp: new_def)
  next
    fix n ch assume "map_of (channels s) n = Some ch \<and> old \<in> users ch"
    then show "\<exists>ch'. map_of (channels s2) n = Some ch' \<and> new \<in> users ch'"
      by (simp add: s2_def map_of_rename_in_channels)
  next
    show "\<forall>(n, ch) \<in> set (channels s2). old \<notin> users ch"
      using diff by (auto simp: s2_def rename_in_channels_def split: if_splits)
  qed
  have send: "?I t'" if "?I t" "True" "sock_send t x f = Some t'" for t x f t'
    using that by (auto simp: sock_send_Some)
  have forget: "?I (forget_user t x u)"
    if I: "?I t" and x: "x \<in> dead t" "map_of (usernames t) x = Some u" "u \<noteq> []" for t x u
  proof -
    from I x(1) have xc: "x \<noteq> c" by auto
    with I x(2) have un: "u \<noteq> new" by blast
    show ?thesis
    proof (intro conjI allI impI)
      show "c \<notin> dead (forget_user t x u)" using I by (simp add: forget_user_def)
      show "map_of (usernames (forget_user t x u)) c = Some new"
        using I xc by (simp add: forget_user_def delete_conv)
    next
      fix d v assume "map_of (usernames (forget_user t x u)) d = Some v \<and> d \<noteq> c"
      then have "map_of (usernames t) d = Some v \<and> d \<noteq> c"
        by (auto simp: forget_user_def delete_conv split: if_splits)
      with I show "v \<noteq> new" by blast
    next
      fix n ch assume "map_of (channels s) n = Some ch \<and> old \<in> users ch"
      with I obtain ch' where "map_of (channels t) n = Some ch'" "new \<in> users ch'" by blast
      with un show "\<exists>ch'. map_of (channels (forget_user t x u)) n = Some ch' \<and> new \<in> users ch'"
        by (auto simp: forget_user_def map_of_remove_from_channels)
    next
      show "\<forall>(n, ch) \<in> set (channels (forget_user t x u)). old \<notin> users ch"
        using I by (auto simp: forget_user_def remove_from_channels_def split: if_splits)
    qed
  qed
  have drop: "?I (drop_client t x)" if "?I t" "x \<in> dead t" for t x
    using that by (auto simp: drop_client_def sock_close_def)
  have "?I (broadcast_from 0 s2 m)"
    by (rule failed_send_preserve(2)[where I = ?I and F = "\<lambda>_. True",
          OF send forget drop TrueI init TrueI])
  then show ?thesis by (simp add: cmd new_def)
qed

theorem nick_renames_everywhere_witness:
  "map_of (usernames alice_in_x) 1 = Some ''alice'' \<and> ''alice'' \<noteq> []
   \<and> nick_pattern (strip ''carol'') \<and> strip ''carol'' \<notin> set (taken_names alice_in_x)
   \<and> 1 \<notin> dead alice_in_x
   \<and> map_option users (map_of (channels alice_in_x) ''#x'') = Some {''alice''}
   \<and> fst (handle_command alice_in_x 1 ''NICK'' ''carol'' []) = Returned
   \<and> map_of (usernames (snd (handle_command alice_in_x 1 ''NICK'' ''carol'' []))) 1
        = Some (strip ''carol'')
   \<and> (\<exists>ch'. map_of (channels (snd (handle_command alice_in_x 1 ''NICK'' ''carol'' []))) ''#x''
               = Some ch'
          \<and> strip ''carol'' \<in> users ch')
   \<and> \<not> (\<exists>(n, ch) \<in> set (channels (snd (handle_command alice_in_x 1 ''NICK'' ''carol'' []))).
           ''alice'' \<in> users ch)"
proof -
  let ?s' = "snd (handle_command alice_in_x 1 ''NICK'' ''carol'' [])"
  have h1: "map_of (usernames alice_in_x) 1 = Some ''alice''" by code_simp
  have h2: "''alice'' \<noteq> []" by simp
  have h3: "nick_pattern (strip ''carol'')" by code_simp
  have h4: "strip ''carol'' \<notin> set (taken_names alice_in_x)" by code_simp
  have h5: "1 \<notin> dead alice_in_x" by code_simp
  have h6: "map_option users (map_of (channels alice_in_x) ''#x'') = Some {''alice''}"
    by code_simp
  then obtain ch where ch: "map_of (channels alice_in_x) ''#x'' = Some ch" "''alice'' \<in> users ch"
    by auto
  from nick_renames_everywhere[OF h1 h2 h3 h4 h5, of "[]"]
  have a: "fst (handle_command alice_in_x 1 ''NICK'' ''carol'' []) = Returned"
      "map_of (usernames ?s') 1 = Some (strip ''carol'')"
    and b: "\<forall>n ch. map_of (channels alice_in_x) n = Some ch \<and> ''alice'' \<in> users ch \<longrightarrow>
              (\<exists>ch'. map_of (channels ?s') n = Some ch' \<and> strip ''carol'' \<in> users ch')"
    and c: "\<forall>(n, ch) \<in> set (channels ?s'). ''alice'' \<notin> users ch"
    by blast+
  from b ch have b': "\<exists>ch'. map_of (channels ?s') ''#x'' = Some ch' \<and> strip ''carol'' \<in> users ch'"
    by blast
  from c have c': "\<not> (\<exists>(n, ch) \<in> set (channels ?s'). ''alice'' \<in> users ch)" by fast
  from h1 h2 h3 h4 h5 h6 a b' c' show ?thesis by blast
qed

section \<open>Sending to a channel\<close>

lemma channel_broadcast_preserve:
  assumes send: "\<And>t c t'. I t \<Longrightarrow> listed_in t chan c \<Longrightarrow> Some c \<noteq> excl
                   \<Longrightarrow> sock_send t c m = Some t' \<Longrightarrow> I t'"
    and disc: "\<And>t c. I t \<Longrightarrow> I (disconnect_client t c)"
  shows "I t \<Longrightarrow> I (broadcast_to_channel_from i t chan m excl)"
proof (induction "length (clients t) - i" arbitrary: i t rule: less_induct)
  case less
  let ?c = "clients t ! i"
  show ?case
  proof (cases "i < length (clients t)")
    case False
    with less.prems show ?thesis by (simp add: broadcast_to_channel_from.simps)
  next
    case True
    have onward: "I (broadcast_to_channel_from (Suc i) t' chan m excl)"
      if "I t'" "length (clients t') \<le> length (clients t)" for t'
      by (rule less.hyps) (use True that in auto)
    show ?thesis
    proof (cases "map_of (channels t) chan")
      case None
      with True less.prems show ?thesis by (simp add: broadcast_to_channel_from.simps)
    next
      case ch: (Some ch)
      show ?thesis
      proof (cases "map_of (usernames t) ?c")
        case None
        with True ch onward[OF less.prems] show ?thesis
          by (simp add: broadcast_to_channel_from.simps)
      next
        case u: (Some u)
        show ?thesis
        proof (cases "u \<noteq> [] \<and> u \<in> users ch \<and> Some ?c \<noteq> excl")
          case False
          have "broadcast_to_channel_from i t chan m excl =
                  broadcast_to_channel_from (Suc i) t chan m excl"
            by (subst broadcast_to_channel_from.simps) (use True ch u False in auto)
          with onward[OF less.prems] show ?thesis by simp
        next
          case cond: True
          then have lst: "listed_in t chan ?c" and ex: "Some ?c \<noteq> excl"
            using ch u by (simp_all add: listed_in_def)
          show ?thesis
          proof (cases "sock_send t ?c m")
            case None
            have "broadcast_to_channel_from i t chan m excl =
                    broadcast_to_channel_from (Suc i) (disconnect_client t ?c) chan m excl"
              by (subst broadcast_to_channel_from.simps) (use True ch u cond None in auto)
            with onward[OF disc[OF less.prems] clients_shrink] show ?thesis by simp
          next
            case (Some t')
            then have same: "clients t' = clients t" by (auto simp: sock_send_Some)
            have "broadcast_to_channel_from i t chan m excl =
                    broadcast_to_channel_from (Suc i) t' chan m excl"
              by (subst broadcast_to_channel_from.simps) (use True ch u cond Some in auto)
            with onward[OF send[OF less.prems lst ex Some]] same show ?thesis by simp
          qed
        qed
      qed
    qed
  qed
qed

text \<open>
  C8. Whatever the channel name, the frame and the excluded connection:
  if the channel does not exist, \<open>broadcast_to_channel\<close> leaves the state as it is, so
  nothing is sent. Otherwise every frame sent during the call is either the given frame,
  sent to a connection that is not the excluded one and whose username, in the index as
  it was when the call began, is in the member set of the channel as it was when the
  call began; or a departure notice, which \<open>disconnect_client\<close> broadcasts when a send
  has failed. A frame that is no departure notice thus reaches no connection outside the
  members at call time.
\<close>

theorem broadcast_to_channel_members_only:
  "(chan \<notin> set (channel_names s) \<longrightarrow> broadcast_to_channel s chan m excl = s)
   \<and> (\<exists>ns. outbox (broadcast_to_channel s chan m excl) = outbox s @ ns
         \<and> (\<forall>(d, f) \<in> set ns.
               (f = m \<and> Some d \<noteq> excl \<and> listed_in s chan d) \<or> departure_notice f))"
proof -
  let ?good = "\<lambda>(d, f). (f = m \<and> Some d \<noteq> excl \<and> listed_in s chan d) \<or> departure_notice f"
  let ?O = "\<lambda>t. \<exists>ns. outbox t = outbox s @ ns \<and> (\<forall>x \<in> set ns. ?good x)"
  let ?U = "\<lambda>t. \<forall>d u. map_of (usernames t) d = Some u \<longrightarrow> map_of (usernames s) d = Some u"
  let ?C = "\<lambda>t. \<forall>ch. map_of (channels t) chan = Some ch \<longrightarrow>
                 (\<exists>ch0. map_of (channels s) chan = Some ch0 \<and> users ch \<subseteq> users ch0)"
  let ?I = "\<lambda>t. ?O t \<and> ?U t \<and> ?C t"
  have init: "?I s" by simp
  have grow: "?O t'"
    if "?O t" "t' = t\<lparr>outbox := outbox t @ [(c, f)]\<rparr>" "?good (c, f)" for t t' c f
  proof -
    from that(1) obtain ns where ns: "outbox t = outbox s @ ns" "\<forall>x \<in> set ns. ?good x"
      by blast
    have "outbox t' = outbox s @ (ns @ [(c, f)])" using ns(1) that(2) by simp
    moreover have "\<forall>x \<in> set (ns @ [(c, f)]). ?good x" using ns(2) that(3) by auto
    ultimately show ?thesis by blast
  qed
  have dsend: "?I t'" if I: "?I t" and f: "departure_notice f" and s: "sock_send t c f = Some t'"
    for t c f t'
  proof -
    from s have t': "t' = t\<lparr>outbox := outbox t @ [(c, f)]\<rparr>" by (simp add: sock_send_Some)
    have "?O t'" by (rule grow[OF _ t']) (use I f in auto)
    moreover have "?U t'" "?C t'" using I by (simp_all add: t')
    ultimately show ?thesis by blast
  qed
  have msend: "?I t'"
    if I: "?I t" and l: "listed_in t chan c" and e: "Some c \<noteq> excl"
      and s: "sock_send t c m = Some t'" for t c t'
  proof -
    from s have t': "t' = t\<lparr>outbox := outbox t @ [(c, m)]\<rparr>" by (simp add: sock_send_Some)
    from l obtain u ch where u: "map_of (usernames t) c = Some u"
      and ch: "map_of (channels t) chan = Some ch" and m: "u \<in> users ch"
      by (auto simp: listed_in_def split: option.splits)
    from I u have u0: "map_of (usernames s) c = Some u" by blast
    from I ch obtain ch0 where ch0: "map_of (channels s) chan = Some ch0" "users ch \<subseteq> users ch0"
      by blast
    from u0 ch0 m have "listed_in s chan c" by (auto simp: listed_in_def)
    with e have "?good (c, m)" by simp
    have "?O t'" by (rule grow[OF _ t' \<open>?good (c, m)\<close>]) (use I in blast)
    moreover have "?U t'" "?C t'" using I by (simp_all add: t')
    ultimately show ?thesis by blast
  qed
  have forget: "?I (forget_user t c u)"
    if I: "?I t" and "map_of (usernames t) c = Some u" "u \<noteq> []" for t c u
  proof -
    have "?O (forget_user t c u)" using I by (simp add: forget_user_def)
    moreover have "?U (forget_user t c u)"
      using I by (auto simp: forget_user_def delete_conv split: if_splits)
    moreover have "?C (forget_user t c u)"
    proof (intro allI impI)
      fix ch assume "map_of (channels (forget_user t c u)) chan = Some ch"
      then obtain ch1 where ch1: "map_of (channels t) chan = Some ch1" "users ch \<subseteq> users ch1"
        by (auto simp: forget_user_def map_of_remove_from_channels split: if_splits)
      from I ch1(1) obtain ch0 where "map_of (channels s) chan = Some ch0" "users ch1 \<subseteq> users ch0"
        by blast
      with ch1(2) show "\<exists>ch0. map_of (channels s) chan = Some ch0 \<and> users ch \<subseteq> users ch0"
        by blast
    qed
    ultimately show ?thesis by blast
  qed
  have drop: "?I (drop_client t c)" if "?I t" for t c
    using that by (simp add: drop_client_def sock_close_def)
  have disc: "?I (disconnect_client t c)" if "?I t" for t c
    by (rule disconnect_broadcast_preserve(1)[where I = ?I and F = departure_notice,
          OF dsend forget drop departure_notice_leave that])
  have "?I (broadcast_to_channel_from 0 s chan m excl)"
    by (rule channel_broadcast_preserve[where I = ?I, OF msend disc init])
  then have "?O (broadcast_to_channel_from 0 s chan m excl)" by blast
  moreover have "?O s" by simp
  ultimately show ?thesis by (simp add: broadcast_to_channel_def)
qed

theorem broadcast_to_channel_members_only_witness:
  "''#nowhere'' \<notin> set (channel_names bob_unreachable)
   \<and> broadcast_to_channel bob_unreachable ''#nowhere''
         (Message ''alice'' ''channel'' ''#nowhere'' ''hi'' 0) None = bob_unreachable
   \<and> outbox (broadcast_to_channel bob_unreachable ''#general''
         (Message ''alice'' ''channel'' ''#general'' ''hi'' 0) None) =
       outbox bob_unreachable @
         [(1, Message ''alice'' ''channel'' ''#general'' ''hi'' 0),
          (1, Message ''SERVER'' ''system'' ''all'' ''bob has left the server.'' 0)]
   \<and> \<not> departure_notice (Message ''alice'' ''channel'' ''#general'' ''hi'' 0)
   \<and> listed_in bob_unreachable ''#general'' 1"
proof -
  let ?m = "Message ''alice'' ''channel'' ''#general'' ''hi'' 0"
  have h1: "''#nowhere'' \<notin> set (channel_names bob_unreachable)" by code_simp
  have h2: "outbox (broadcast_to_channel bob_unreachable ''#general'' ?m None) =
       outbox bob_unreachable @
         [(1, ?m), (1, Message ''SERVER'' ''system'' ''all'' ''bob has left the server.'' 0)]"
    by code_simp
  have h3: "\<not> departure_notice ?m" by code_simp
  from broadcast_to_channel_members_only[of "''#nowhere''" bob_unreachable
      "Message ''alice'' ''channel'' ''#nowhere'' ''hi'' 0" None] h1
  have a: "broadcast_to_channel bob_unreachable ''#nowhere''
         (Message ''alice'' ''channel'' ''#nowhere'' ''hi'' 0) None = bob_unreachable"
    by blast
  from broadcast_to_channel_members_only[of "''#general''" bob_unreachable ?m None]
  obtain ns where ns: "outbox (broadcast_to_channel bob_unreachable ''#general'' ?m None) =
        outbox bob_unreachable @ ns"
    and good: "\<forall>(d, f) \<in> set ns.
        (f = ?m \<and> Some d \<noteq> None \<and> listed_in bob_unreachable ''#general'' d) \<or> departure_notice f"
    by blast
  from ns h2 have "ns = [(1, ?m), (1, Message ''SERVER'' ''system'' ''all'' ''bob has left the server.'' 0)]"
    by simp
  with good h3 have b: "listed_in bob_unreachable ''#general'' 1" by simp
  from h1 a h2 h3 b show ?thesis by blast
qed

section \<open>Two renames at once\<close>

text \<open>
  Run without interruption, the checks followed by what the thread does with their
  decision are the \<open>NICK\<close> branch of \<open>handle_command\<close>.
\<close>

lemma cmd_nick_check_commit:
  "cmd_nick s c u target = nick_after_check s c u target (nick_check s target)"
  by (simp add: cmd_nick_def nick_check_def nick_commit_def nick_after_check_def Let_def)

lemma handle_command_nick_check_commit:
  "map_of (usernames s) c = Some u \<Longrightarrow> u \<noteq> [] \<Longrightarrow>
     handle_command s c ''NICK'' target content =
       nick_after_check s c u target (nick_check s target)"
  by (simp add: handle_command_nick cmd_nick_check_commit)

text \<open>
  C9 at a failing schedule. \<open>alice\<close> (connection 1) and \<open>bob\<close> (connection 2) are
  registered and both send \<open>/nick same\<close>. The thread of \<open>alice\<close> passes the duplicate
  check of line 185 and is suspended before the assignment of line 192; the thread of
  \<open>bob\<close> passes the same check, since \<open>same\<close> is not yet in the index; then both
  assign. Both renames succeed: the index holds \<open>same\<close> for both connections,
  \<open>#general\<close> has the one member \<open>same\<close>, both notices are broadcast and nobody gets a
  400 response. When the second command starts after the first has ended, the second
  requester gets the 400 response and keeps its name.
\<close>

theorem concurrent_nick_both_succeed:
  "map_of (usernames alice_and_bob) 1 = Some ''alice''
   \<and> map_of (usernames alice_and_bob) 2 = Some ''bob''
   \<and> nick_check alice_and_bob ''same'' = None
   \<and> fst (nick_race alice_and_bob 1 ''alice'' ''same'' 2 ''bob'' ''same'') = Returned
   \<and> fst (snd (nick_race alice_and_bob 1 ''alice'' ''same'' 2 ''bob'' ''same'')) = Returned
   \<and> usernames (snd (snd (nick_race alice_and_bob 1 ''alice'' ''same'' 2 ''bob'' ''same'')))
        = [(1, ''same''), (2, ''same'')]
   \<and> map_option users
        (map_of (channels (snd (snd (nick_race alice_and_bob 1 ''alice'' ''same'' 2 ''bob'' ''same''))))
           ''#general'') = Some {''same''}
   \<and> outbox (snd (snd (nick_race alice_and_bob 1 ''alice'' ''same'' 2 ''bob'' ''same''))) =
        outbox alice_and_bob @
          [(1, Message ''SERVER'' ''system'' ''all'' ''alice is now known as same'' 0),
           (2, Message ''SERVER'' ''system'' ''all'' ''alice is now known as same'' 0),
           (1, Message ''SERVER'' ''system'' ''all'' ''bob is now known as same'' 0),
           (2, Message ''SERVER'' ''system'' ''all'' ''bob is now known as same'' 0)]
   \<and> usernames (snd (handle_command (snd (handle_command alice_and_bob 1 ''NICK'' ''same'' []))
                         2 ''NICK'' ''same'' []))
        = [(1, ''same''), (2, ''bob'')]
   \<and> outbox (snd (handle_command (snd (handle_command alice_and_bob 1 ''NICK'' ''same'' []))
                      2 ''NICK'' ''same'' [])) =
        outbox alice_and_bob @
          [(1, Message ''SERVER'' ''system'' ''all'' ''alice is now known as same'' 0),
           (2, Message ''SERVER'' ''system'' ''all'' ''alice is now known as same'' 0),
           (2, Response ''400'' ''Nickname already in use.'' 0)]"
  by code_simp

end
